theory Spec2Isabelle
  imports Main "HOL-Library.FSet"
begin

section \<open>The four lifecycle patterns\<close>

text \<open>
  \<^verbatim>\<open>ConnectionLifecycleParser.__init__\<close> compiles four regular expressions with
  \<^verbatim>\<open>re.IGNORECASE\<close> and \<^verbatim>\<open>parse_lifecycle_event\<close> applies them with
  \<^verbatim>\<open>search\<close>. A log line is a \<^typ>\<open>string\<close>; its characters are the code points
  below 256. The patterns use only literal text, a greedy repetition of one character
  class, an optional literal, alternation and capture groups, which is what \<open>rx\<close> has.
\<close>

datatype rx =
    Chars string
  | Star "char \<Rightarrow> bool"
  | Plus "char \<Rightarrow> bool"
  | Opt rx
  | Group nat rx
  | Alt rx rx
  | Seq rx rx

text \<open>
  The captures of a match, latest first; \<^verbatim>\<open>match.group(n)\<close> is \<open>group m n\<close>, with
  \<open>None\<close> for a group that took no part in the match.
\<close>

type_synonym groups = "(nat \<times> string) list"

definition group :: "groups \<Rightarrow> nat \<Rightarrow> string option" where
  "group m n = map_of m n"

text \<open>The character classes \<^verbatim>\<open>.\<close>, \<^verbatim>\<open>\w\<close>, \<^verbatim>\<open>\s\<close> and \<^verbatim>\<open>[^&\s]\<close> of a \<^verbatim>\<open>str\<close> pattern.\<close>

definition dot :: "char \<Rightarrow> bool" where
  "dot c = (of_char c \<noteq> (10::nat))"

definition word :: "char \<Rightarrow> bool" where
  "word c =
     (let n = (of_char c :: nat)
      in (48 \<le> n \<and> n \<le> 57) \<or> (65 \<le> n \<and> n \<le> 90) \<or> n = 95 \<or> (97 \<le> n \<and> n \<le> 122)
         \<or> n = 170 \<or> n = 178 \<or> n = 179 \<or> n = 181 \<or> n = 185 \<or> n = 186
         \<or> (188 \<le> n \<and> n \<le> 190) \<or> (192 \<le> n \<and> n \<le> 214)
         \<or> (216 \<le> n \<and> n \<le> 246) \<or> 248 \<le> n)"

definition space :: "char \<Rightarrow> bool" where
  "space c =
     (let n = (of_char c :: nat)
      in (9 \<le> n \<and> n \<le> 13) \<or> (28 \<le> n \<and> n \<le> 32) \<or> n = 133 \<or> n = 160)"

definition not_amp_space :: "char \<Rightarrow> bool" where
  "not_amp_space c = (c \<noteq> CHR ''&'' \<and> \<not> space c)"

text \<open>
  \<^verbatim>\<open>re.IGNORECASE\<close>: a literal letter of the pattern matches both of its cases;
  \<open>lower\<close> is the code point of the lower-case form of a character.
\<close>

definition lower :: "char \<Rightarrow> nat" where
  "lower c =
     (let n = (of_char c :: nat)
      in if 65 \<le> n \<and> n \<le> 90 then n + 32 else n)"

fun lit :: "string \<Rightarrow> string \<Rightarrow> string option" where
  "lit [] s = Some s"
| "lit (p # ps) [] = None"
| "lit (p # ps) (c # cs) = (if lower c = lower p then lit ps cs else None)"

text \<open>
  A greedy repetition takes as many characters as it can and gives them back one at a
  time while the rest of the pattern, the continuation \<open>k\<close>, fails.
\<close>

fun star :: "(char \<Rightarrow> bool) \<Rightarrow> string \<Rightarrow> (string \<Rightarrow> 'a option) \<Rightarrow> 'a option" where
  "star p [] k = k []"
| "star p (c # cs) k =
     (if p c
      then (case star p cs k of Some r \<Rightarrow> Some r | None \<Rightarrow> k (c # cs))
      else k (c # cs))"

fun rmatch :: "rx \<Rightarrow> string \<Rightarrow> groups \<Rightarrow> (string \<Rightarrow> groups \<Rightarrow> groups option) \<Rightarrow> groups option" where
  "rmatch (Chars w) s g k = (case lit w s of None \<Rightarrow> None | Some s' \<Rightarrow> k s' g)"
| "rmatch (Star p) s g k = star p s (\<lambda>s'. k s' g)"
| "rmatch (Plus p) s g k =
     (case s of [] \<Rightarrow> None
      | c # cs \<Rightarrow> if p c then star p cs (\<lambda>s'. k s' g) else None)"
| "rmatch (Opt r) s g k =
     (case rmatch r s g k of Some m \<Rightarrow> Some m | None \<Rightarrow> k s g)"
| "rmatch (Group n r) s g k =
     rmatch r s g (\<lambda>s' g'. k s' ((n, take (length s - length s') s) # g'))"
| "rmatch (Alt a b) s g k =
     (case rmatch a s g k of Some m \<Rightarrow> Some m | None \<Rightarrow> rmatch b s g k)"
| "rmatch (Seq a b) s g k = rmatch a s g (\<lambda>s' g'. rmatch b s' g' k)"

text \<open>\<^verbatim>\<open>pattern.search(line)\<close>: the match at the leftmost position that has one.\<close>

fun search :: "rx \<Rightarrow> string \<Rightarrow> groups option" where
  "search r [] = rmatch r [] [] (\<lambda>s g. Some g)"
| "search r (c # cs) =
     (case rmatch r (c # cs) [] (\<lambda>s g. Some g) of
        Some m \<Rightarrow> Some m
      | None \<Rightarrow> search r cs)"

declare search.simps [simp del]

fun cat :: "rx list \<Rightarrow> rx" where
  "cat [] = Chars []"
| "cat [r] = r"
| "cat (r # rs) = Seq r (cat rs)"

definition queue_join :: rx where
  "queue_join = cat
     [Chars ''LogNet: Join request: /Game/Maps/world_0/World_0?'',
      Star dot,
      Chars ''?Name='',
      Group 1 (Plus not_amp_space),
      Star dot,
      Alt (Seq (Chars ''platformid=PS5:'') (Group 2 (Plus word)))
          (Seq (Chars ''eosid=|'') (Group 3 (Plus word)))]"

definition player_joined :: rx where
  "player_joined = cat
     [Chars ''LogOnline: Warning: Player |'',
      Group 1 (Plus word),
      Chars '' successfully registered!'']"

definition disconnect_post_join :: rx where
  "disconnect_post_join = cat
     [Chars ''UChannel::Close: Sending CloseBunch'',
      Star dot,
      Chars ''UniqueId: EOS:|'',
      Group 1 (Plus word)]"

definition disconnect_pre_join :: rx where
  "disconnect_pre_join = cat
     [Chars ''UChannel::Close: Sending CloseBunch'',
      Star dot,
      Chars ''UniqueId: '',
      Alt (Chars ''PS5'') (Chars ''EOS''),
      Chars '':'',
      Opt (Chars ''|''),
      Group 1 (Plus word)]"

section \<open>Tracking state\<close>

text \<open>
  \<^verbatim>\<open>self.server_counts\<close> maps a server key to a dict object with the two counters and
  \<^verbatim>\<open>self.player_states\<close> maps it to four sets of player ids. The counter dicts are
  objects in a store: \<^verbatim>\<open>_update_live_counts\<close> writes to the object in place and
  \<^verbatim>\<open>get_live_counts\<close> hands a new object, a copy, to its caller. \<open>server_counts\<close>
  therefore holds references into \<open>heap\<close>, and \<open>next_ref\<close> is the next unused
  reference. No reference to a set leaves the parser, so the sets are held by value.
\<close>

type_synonym ref = nat

record counts =
  queue_count :: int
  player_count :: int

record states =
  players_queued :: "string fset"
  players_joined :: "string fset"
  players_disconnected_pre :: "string fset"
  players_disconnected_post :: "string fset"

record parser =
  server_counts :: "string \<rightharpoonup> ref"
  player_states :: "string \<rightharpoonup> states"
  heap :: "ref \<Rightarrow> counts"
  next_ref :: ref

datatype error = KeyError

text \<open>\<^verbatim>\<open>__init__\<close>: both dictionaries start empty.\<close>

definition new_parser :: parser where
  "new_parser =
     \<lparr>server_counts = Map.empty, player_states = Map.empty,
      heap = (\<lambda>r. \<lparr>queue_count = 0, player_count = 0\<rparr>), next_ref = 0\<rparr>"

text \<open>A dict display or \<^verbatim>\<open>.copy()\<close> creates a new object.\<close>

definition alloc :: "counts \<Rightarrow> parser \<Rightarrow> ref \<times> parser" where
  "alloc c s = (next_ref s, s\<lparr>heap := (heap s)(next_ref s := c), next_ref := Suc (next_ref s)\<rparr>)"

definition initialize_server_tracking :: "string \<Rightarrow> parser \<Rightarrow> parser" where
  "initialize_server_tracking server_key s =
     (let s1 =
        (if server_key \<notin> dom (server_counts s)
         then (case alloc \<lparr>queue_count = 0, player_count = 0\<rparr> s of
                 (r, s') \<Rightarrow> s'\<lparr>server_counts := (server_counts s')(server_key \<mapsto> r)\<rparr>)
         else s)
      in if server_key \<notin> dom (player_states s1)
         then s1\<lparr>player_states := (player_states s1)(server_key \<mapsto>
                 \<lparr>players_queued = {||}, players_joined = {||},
                  players_disconnected_pre = {||}, players_disconnected_post = {||}\<rparr>)\<rparr>
         else s1)"

text \<open>Sequencing of steps that may raise: the first exception ends the call.\<close>

definition and_then :: "error + 'a \<Rightarrow> ('a \<Rightarrow> error + 'b) \<Rightarrow> error + 'b" where
  "and_then x f = (case x of Inl e \<Rightarrow> Inl e | Inr v \<Rightarrow> f v)"

text \<open>
  \<^verbatim>\<open>self.player_states[server_key][field].add(player_id)\<close> and
  \<^verbatim>\<open>player_id in self.player_states[server_key][field]\<close>; the subscript raises
  \<^verbatim>\<open>KeyError\<close> on a key that is not there.
\<close>

definition set_add ::
  "((string fset \<Rightarrow> string fset) \<Rightarrow> states \<Rightarrow> states) \<Rightarrow> string \<Rightarrow> string \<Rightarrow> parser \<Rightarrow> error + parser" where
  "set_add field_update server_key pid s =
     (case player_states s server_key of
        None \<Rightarrow> Inl KeyError
      | Some st \<Rightarrow>
          Inr (s\<lparr>player_states := (player_states s)(server_key \<mapsto> field_update (finsert pid) st)\<rparr>))"

definition set_member ::
  "(states \<Rightarrow> string fset) \<Rightarrow> string \<Rightarrow> string \<Rightarrow> parser \<Rightarrow> error + bool" where
  "set_member field server_key pid s =
     (case player_states s server_key of
        None \<Rightarrow> Inl KeyError
      | Some st \<Rightarrow> Inr (pid |\<in>| field st))"

text \<open>
  \<^verbatim>\<open>_update_live_counts\<close>. Its last statement, \<^verbatim>\<open>_update_voice_channels\<close>, renames
  channels of the Discord guild, touches no field of the parser and catches every
  exception of its body, so it adds nothing to the state kept here.
\<close>

definition update_live_counts :: "string \<Rightarrow> parser \<Rightarrow> error + parser" where
  "update_live_counts server_key s =
     (case player_states s server_key of
        None \<Rightarrow> Inl KeyError
      | Some st \<Rightarrow>
     (case server_counts s server_key of
        None \<Rightarrow> Inl KeyError
      | Some r \<Rightarrow>
          (let jq = int (fcard (players_queued st));
               j2 = int (fcard (players_joined st));
               d2 = int (fcard (players_disconnected_pre st));
               qc = max 0 (jq - j2 - d2);
               d1 = int (fcard (players_disconnected_post st));
               pc = max 0 (j2 - d1)
           in Inr (s\<lparr>heap := (heap s)(r := (heap s r)\<lparr>queue_count := qc, player_count := pc\<rparr>)\<rparr>))))"

section \<open>Notifications\<close>

text \<open>
  \<^verbatim>\<open>_create_join_embed\<close> and \<^verbatim>\<open>_create_leave_embed\<close> fill a dict and pass it to
  \<^verbatim>\<open>EmbedFactory.build\<close>, which lives in \<^verbatim>\<open>bot.utils.embed_factory\<close>. The builder
  and the clock read by \<^verbatim>\<open>datetime.now\<close> are parameters, \<open>build\<close> and \<open>now\<close>. Each
  message starts with a pictograph, given by its code points, followed by text.
\<close>

record 't embed_data =
  event_type :: string
  player_name :: string
  player_id :: string
  timestamp :: 't
  messages :: "(nat list \<times> string) list"

text \<open>The returned dict \<^verbatim>\<open>{'embed': embed, 'file': file_attachment}\<close>.\<close>

record ('e, 'f) payload =
  embed :: 'e
  file_attachment :: 'f

text \<open>\<^verbatim>\<open>player_name or player_id\<close>, for an optional name and an id.\<close>

definition name_or :: "string option \<Rightarrow> string \<Rightarrow> string" where
  "name_or pname pid = (case pname of None \<Rightarrow> pid | Some n \<Rightarrow> if n = [] then pid else n)"

definition create_join_embed ::
  "(string \<Rightarrow> 't embed_data \<Rightarrow> 'e \<times> 'f) \<Rightarrow> 't \<Rightarrow> string \<Rightarrow> string option \<Rightarrow> ('e, 'f) payload" where
  "create_join_embed build now pid pname =
     (let n = name_or pname pid;
          data = \<lparr>event_type = ''player_join'', player_name = n, player_id = pid,
                  timestamp = now,
                  messages =
                    [([0x1F3AE], '' '' @ n @ '' joined the server!''),
                     ([0x1F31F], '' Welcome '' @ n @ '' to the battlefield!''),
                     ([0x2694, 0xFE0F], '' '' @ n @ '' has entered the game!''),
                     ([0x1F3AF], '' '' @ n @ '' is ready for action!'')]\<rparr>
      in case build ''player_join'' data of
           (e, f) \<Rightarrow> \<lparr>embed = e, file_attachment = f\<rparr>)"

definition create_leave_embed ::
  "(string \<Rightarrow> 't embed_data \<Rightarrow> 'e \<times> 'f) \<Rightarrow> 't \<Rightarrow> string \<Rightarrow> string option \<Rightarrow> ('e, 'f) payload" where
  "create_leave_embed build now pid pname =
     (let n = name_or pname pid;
          data = \<lparr>event_type = ''player_leave'', player_name = n, player_id = pid,
                  timestamp = now,
                  messages =
                    [([0x1F44B], '' '' @ n @ '' left the server''),
                     ([0x1F6AA], '' '' @ n @ '' disconnected from the battlefield''),
                     ([0x23F0], '' '' @ n @ '' has ended their session''),
                     ([0x1F51A], '' '' @ n @ '' signed off'')]\<rparr>
      in case build ''player_leave'' data of
           (e, f) \<Rightarrow> \<lparr>embed = e, file_attachment = f\<rparr>)"

section \<open>Parsing one line\<close>

text \<open>
  \<^verbatim>\<open>match.group(2) or match.group(3)\<close> of the queue pattern: the first of the two that
  is neither \<^verbatim>\<open>None\<close> nor empty, else the second.
\<close>

definition group_or :: "string option \<Rightarrow> string option \<Rightarrow> string option" where
  "group_or a b = (case a of None \<Rightarrow> b | Some x \<Rightarrow> if x = [] then b else Some x)"

text \<open>
  \<^verbatim>\<open>match.group(1)\<close> of the other three patterns. Their group 1 is on every path
  through the pattern, so it is a string in every match (lemmas \<open>player_joined_group\<close>,
  \<open>disconnect_post_join_group\<close> and \<open>disconnect_pre_join_group\<close> below); the empty
  string stands for the \<^verbatim>\<open>None\<close> that does not occur.
\<close>

definition group1 :: "groups \<Rightarrow> string" where
  "group1 m = (case group m 1 of None \<Rightarrow> [] | Some p \<Rightarrow> p)"

text \<open>
  \<^verbatim>\<open>parse_lifecycle_event\<close>. The result is the new state, the returned dict
  (\<open>None\<close> for \<^verbatim>\<open>return None\<close>) and the value that the local variable
  \<^verbatim>\<open>event_type\<close> has when the function returns: \<^verbatim>\<open>'jq'\<close>, \<^verbatim>\<open>'j2'\<close>, \<^verbatim>\<open>'d1'\<close>,
  \<^verbatim>\<open>'d2'\<close> or \<^verbatim>\<open>None\<close>. The branch of the first disconnect pattern returns the
  leave embed before the call of \<^verbatim>\<open>_update_live_counts\<close> that ends the branch.
\<close>

type_synonym ('e, 'f) outcome = "parser \<times> ('e, 'f) payload option \<times> string option"

definition parse_lifecycle_event ::
  "(string \<Rightarrow> 't embed_data \<Rightarrow> 'e \<times> 'f) \<Rightarrow> 't \<Rightarrow> string \<Rightarrow> string \<Rightarrow> int \<Rightarrow> parser
     \<Rightarrow> error + ('e, 'f) outcome" where
  "parse_lifecycle_event build now line server_key guild_id s =
     (let s0 = initialize_server_tracking server_key s
      in case search queue_join line of
           Some m \<Rightarrow>
             (case group_or (group m 2) (group m 3) of
                None \<Rightarrow> Inr (s0, None, Some ''jq'')
              | Some pid \<Rightarrow>
                  if pid \<noteq> []
                  then and_then (set_add players_queued_update server_key pid s0) (\<lambda>s1.
                       and_then (update_live_counts server_key s1) (\<lambda>s2.
                       Inr (s2, None, Some ''jq'')))
                  else Inr (s0, None, Some ''jq''))
         | None \<Rightarrow>
        (case search player_joined line of
           Some m \<Rightarrow>
             (let pid = group1 m
              in and_then (set_add players_joined_update server_key pid s0) (\<lambda>s1.
                 and_then (update_live_counts server_key s1) (\<lambda>s2.
                 Inr (s2, Some (create_join_embed build now pid None), Some ''j2''))))
         | None \<Rightarrow>
        (case search disconnect_post_join line of
           Some m \<Rightarrow>
             (let pid = group1 m
              in and_then (set_member players_joined server_key pid s0) (\<lambda>joined.
                 if joined
                 then and_then (set_add players_disconnected_post_update server_key pid s0) (\<lambda>s1.
                      Inr (s1, Some (create_leave_embed build now pid None), Some ''d1''))
                 else and_then (set_member players_queued server_key pid s0) (\<lambda>queued.
                      if queued
                      then and_then (set_add players_disconnected_pre_update server_key pid s0) (\<lambda>s1.
                           and_then (update_live_counts server_key s1) (\<lambda>s2.
                           Inr (s2, None, Some ''d2'')))
                      else and_then (update_live_counts server_key s0) (\<lambda>s2.
                           Inr (s2, None, None)))))
         | None \<Rightarrow>
        (case search disconnect_pre_join line of
           Some m \<Rightarrow>
             (let pid = group1 m
              in and_then (set_member players_queued server_key pid s0) (\<lambda>queued.
                 and_then (if queued
                           then and_then (set_member players_joined server_key pid s0)
                                  (\<lambda>joined. Inr (\<not> joined))
                           else Inr False) (\<lambda>pre.
                 if pre
                 then and_then (set_add players_disconnected_pre_update server_key pid s0) (\<lambda>s1.
                      and_then (update_live_counts server_key s1) (\<lambda>s2.
                      Inr (s2, None, Some ''d2'')))
                 else Inr (s0, None, None))))
         | None \<Rightarrow> Inr (s0, None, None)))))"

text \<open>
  \<^verbatim>\<open>get_live_counts\<close> returns \<^verbatim>\<open>self.server_counts[server_key].copy()\<close>: a reference
  to a new dict with the same two entries.
\<close>

definition get_live_counts :: "string \<Rightarrow> parser \<Rightarrow> error + parser \<times> ref" where
  "get_live_counts server_key s =
     (let s0 = initialize_server_tracking server_key s
      in case server_counts s0 server_key of
           None \<Rightarrow> Inl KeyError
         | Some r \<Rightarrow> (case alloc (heap s0 r) s0 of (r', s1) \<Rightarrow> Inr (s1, r')))"

definition reset_server_counts :: "string \<Rightarrow> parser \<Rightarrow> parser" where
  "reset_server_counts server_key s =
     (let s1 = (if server_key \<in> dom (server_counts s)
                then s\<lparr>server_counts := (server_counts s)(server_key := None)\<rparr> else s)
      in if server_key \<in> dom (player_states s1)
         then s1\<lparr>player_states := (player_states s1)(server_key := None)\<rparr> else s1)"

section \<open>Callers\<close>

text \<open>
  The operations a caller has, and a caller that performs a list of them in order; an
  exception of one call ends the run.
\<close>

datatype op = Parse string string int | GetLiveCounts string | Reset string

fun run ::
  "(string \<Rightarrow> 't embed_data \<Rightarrow> 'e \<times> 'f) \<Rightarrow> 't \<Rightarrow> op list \<Rightarrow> parser \<Rightarrow> error + parser" where
  "run build now [] s = Inr s"
| "run build now (Parse line server_key guild_id # ops) s =
     (case parse_lifecycle_event build now line server_key guild_id s of
        Inl e \<Rightarrow> Inl e
      | Inr (s', ret, ev) \<Rightarrow> run build now ops s')"
| "run build now (GetLiveCounts server_key # ops) s =
     (case get_live_counts server_key s of
        Inl e \<Rightarrow> Inl e
      | Inr (s', r) \<Rightarrow> run build now ops s')"
| "run build now (Reset server_key # ops) s = run build now ops (reset_server_counts server_key s)"

section \<open>Vocabulary of the properties\<close>

text \<open>
  What is stored for a key: its four sets and the contents of its counter dict, each
  \<open>None\<close> while the key is not in the dictionary.
\<close>

definition stored_counts :: "parser \<Rightarrow> string \<Rightarrow> counts option" where
  "stored_counts s server_key = map_option (heap s) (server_counts s server_key)"

definition tracked :: "parser \<Rightarrow> string \<Rightarrow> states option \<times> counts option" where
  "tracked s server_key = (player_states s server_key, stored_counts s server_key)"

text \<open>The contents of the dict that \<^verbatim>\<open>get_live_counts\<close> returns.\<close>

definition live_counts :: "string \<Rightarrow> parser \<Rightarrow> counts option" where
  "live_counts server_key s =
     (case get_live_counts server_key s of Inl e \<Rightarrow> None | Inr (s', r) \<Rightarrow> Some (heap s' r))"

text \<open>
  The counter formulas as the specification words them:
  \<open>queueCount = max(0, |queued| - |joined| - |disconnectedPreJoin|)\<close> and
  \<open>playerCount = max(0, |joined| - |disconnectedPostJoin|)\<close>.
\<close>

definition spec_counts :: "states \<Rightarrow> counts" where
  "spec_counts st =
     \<lparr>queue_count = max 0 (int (fcard (players_queued st)) - int (fcard (players_joined st))
                          - int (fcard (players_disconnected_pre st))),
      player_count = max 0 (int (fcard (players_joined st))
                          - int (fcard (players_disconnected_post st)))\<rparr>"

text \<open>
  The states that the operations produce: every stored reference has been allocated,
  and two keys never share a counter dict.
\<close>

definition wf :: "parser \<Rightarrow> bool" where
  "wf s = ((\<forall>k r. server_counts s k = Some r \<longrightarrow> r < next_ref s)
           \<and> (\<forall>k k' r. server_counts s k = Some r \<and> server_counts s k' = Some r \<longrightarrow> k = k'))"

text \<open>The empty sets that \<^verbatim>\<open>initialize_server_tracking\<close> stores for a new key.\<close>

definition no_states :: states where
  "no_states = \<lparr>players_queued = {||}, players_joined = {||},
                  players_disconnected_pre = {||}, players_disconnected_post = {||}\<rparr>"

text \<open>Every set of \<open>st'\<close> has the members it has in \<open>st\<close>.\<close>

definition grows :: "states \<Rightarrow> states \<Rightarrow> bool" where
  "grows st st' =
     (players_queued st |\<subseteq>| players_queued st'
      \<and> players_joined st |\<subseteq>| players_joined st'
      \<and> players_disconnected_pre st |\<subseteq>| players_disconnected_pre st'
      \<and> players_disconnected_post st |\<subseteq>| players_disconnected_post st')"

definition nonneg :: "counts \<Rightarrow> bool" where
  "nonneg c = (0 \<le> queue_count c \<and> 0 \<le> player_count c)"

text \<open>
  Which captures a match of a pattern leaves, latest first; a group around a pattern
  that cannot match the empty string holds a string that is not empty.
\<close>

fun nonempty :: "rx \<Rightarrow> bool" where
  "nonempty (Chars w) = (w \<noteq> [])"
| "nonempty (Star p) = False"
| "nonempty (Plus p) = True"
| "nonempty (Opt r) = False"
| "nonempty (Group n r) = nonempty r"
| "nonempty (Alt a b) = (nonempty a \<and> nonempty b)"
| "nonempty (Seq a b) = (nonempty a \<or> nonempty b)"

fun captures :: "rx \<Rightarrow> groups \<Rightarrow> bool" where
  "captures (Chars w) new = (new = [])"
| "captures (Star p) new = (new = [])"
| "captures (Plus p) new = (new = [])"
| "captures (Opt r) new = (new = [] \<or> captures r new)"
| "captures (Group n r) new = (\<exists>v rest. new = (n, v) # rest \<and> captures r rest \<and> (nonempty r \<longrightarrow> v \<noteq> []))"
| "captures (Alt a b) new = (captures a new \<or> captures b new)"
| "captures (Seq a b) new = (\<exists>na nb. new = nb @ na \<and> captures a na \<and> captures b nb)"

text \<open>A pattern matched, and the identifier it captured is empty.\<close>

definition empty_capture :: "string \<Rightarrow> bool" where
  "empty_capture line =
     ((\<exists>m. search queue_join line = Some m
          \<and> (case group_or (group m 2) (group m 3) of None \<Rightarrow> True | Some p \<Rightarrow> p = []))
      \<or> (\<exists>m. search player_joined line = Some m \<and> group1 m = [])
      \<or> (\<exists>m. search disconnect_post_join line = Some m \<and> group1 m = [])
      \<or> (\<exists>m. search disconnect_pre_join line = Some m \<and> group1 m = []))"

text \<open>A builder for concrete runs: it keeps the kind and the name it was given.\<close>

definition build0 :: "string \<Rightarrow> unit embed_data \<Rightarrow> string \<times> string" where
  "build0 kind d = (kind, player_name d)"

text \<open>
  Concrete log lines: two queue joins, a registration, channel closes of the first
  and of the second disconnect pattern, and a line that holds a registration record
  followed by a close record.
\<close>

definition queue_line_A :: string where
  "queue_line_A = ''LogNet: Join request: /Game/Maps/world_0/World_0?x?Name=Ann&eosid=|A''"

definition queue_line_B :: string where
  "queue_line_B = ''LogNet: Join request: /Game/Maps/world_0/World_0?x?Name=Bob&platformid=PS5:B''"

definition join_line_A :: string where
  "join_line_A = ''LogOnline: Warning: Player |A successfully registered!''"

definition close_line_A :: string where
  "close_line_A = ''UChannel::Close: Sending CloseBunch. UniqueId: EOS:|A''"

definition close_line_B :: string where
  "close_line_B = ''UChannel::Close: Sending CloseBunch. UniqueId: EOS:|B''"

definition close_ps5_line_B :: string where
  "close_ps5_line_B = ''UChannel::Close: Sending CloseBunch. UniqueId: PS5:|B''"

definition join_close_line_A :: string where
  "join_close_line_A =
     ''LogOnline: Warning: Player |A successfully registered! UChannel::Close: Sending CloseBunch. UniqueId: EOS:|A''"

text \<open>
  The state after a run from a new parser, and what a call gave: the dict it returned
  and its event type.
\<close>

definition after :: "op list \<Rightarrow> parser" where
  "after ops = (case run build0 () ops new_parser of Inl e \<Rightarrow> new_parser | Inr s \<Rightarrow> s)"

definition returned :: "error + ('e, 'f) outcome \<Rightarrow> ('e, 'f) payload option" where
  "returned x = (case x of Inl e \<Rightarrow> None | Inr (s, ret, ev) \<Rightarrow> ret)"

definition event_of :: "error + ('e, 'f) outcome \<Rightarrow> string option" where
  "event_of x = (case x of Inl e \<Rightarrow> None | Inr (s, ret, ev) \<Rightarrow> ev)"

section \<open>Matches and their captures\<close>

text \<open>The equations that evaluate a search on a concrete line.\<close>

lemmas rx_simps = search.simps queue_join_def player_joined_def disconnect_post_join_def
  disconnect_pre_join_def lower_def word_def dot_def space_def not_amp_space_def Let_def

lemma lit_length: "lit w s = Some s' \<Longrightarrow> length s' + length w = length s"
  by (induction w s rule: lit.induct) (auto split: if_splits)

lemma star_run: "star p s k = Some m \<Longrightarrow> \<exists>s'. k s' = Some m \<and> length s' \<le> length s"
proof (induction s)
  case Nil
  then show ?case by auto
next
  case (Cons c cs)
  show ?case
  proof (cases "p c \<and> star p cs k \<noteq> None")
    case True
    with Cons.prems have "star p cs k = Some m" by auto
    from Cons.IH [OF this] show ?thesis by auto
  next
    case False
    with Cons.prems have "k (c # cs) = Some m" by (auto split: option.splits)
    then show ?thesis by auto
  qed
qed

lemma rmatch_run:
  "rmatch r s g k = Some m \<Longrightarrow>
   \<exists>s' new. k s' (new @ g) = Some m \<and> captures r new \<and> length s' \<le> length s
     \<and> (nonempty r \<longrightarrow> length s' < length s)"
proof (induction r arbitrary: s g k m)
  case (Chars w)
  then obtain s' where l: "lit w s = Some s'" and k: "k s' g = Some m"
    by (auto split: option.splits)
  from lit_length [OF l] have "length s' \<le> length s" "w \<noteq> [] \<longrightarrow> length s' < length s"
    by (cases w; simp)+
  with k show ?case
    by (intro exI [of _ s'] exI [of _ "[]"]) simp
next
  case (Star p)
  then have "star p s (\<lambda>s'. k s' g) = Some m" by simp
  from star_run [OF this] obtain s' where "k s' g = Some m" "length s' \<le> length s"
    by blast
  then show ?case
    by (intro exI [of _ s'] exI [of _ "[]"]) simp
next
  case (Plus p)
  then obtain c cs where s: "s = c # cs" and "star p cs (\<lambda>s'. k s' g) = Some m"
    by (auto split: list.splits if_splits)
  from star_run [OF this(2)] obtain s' where "k s' g = Some m" "length s' \<le> length cs"
    by blast
  with s show ?case
    by (intro exI [of _ s'] exI [of _ "[]"]) simp
next
  case (Opt r)
  show ?case
  proof (cases "rmatch r s g k")
    case None
    with Opt.prems have "k s g = Some m" by simp
    then show ?thesis
      by (intro exI [of _ s] exI [of _ "[]"]) simp
  next
    case (Some a)
    with Opt.prems have "rmatch r s g k = Some m" by simp
    from Opt.IH [OF this] show ?thesis by fastforce
  qed
next
  case (Group n r)
  then have "rmatch r s g (\<lambda>s' g'. k s' ((n, take (length s - length s') s) # g')) = Some m"
    by simp
  from Group.IH [OF this] obtain s' new where
    k: "k s' ((n, take (length s - length s') s) # new @ g) = Some m"
    and c: "captures r new" and le: "length s' \<le> length s"
    and lt: "nonempty r \<longrightarrow> length s' < length s" by blast
  have "nonempty r \<longrightarrow> take (length s - length s') s \<noteq> []"
    using lt by auto
  with k c le lt show ?case
    by (intro exI [of _ s'] exI [of _ "(n, take (length s - length s') s) # new"]) auto
next
  case (Alt a b)
  show ?case
  proof (cases "rmatch a s g k")
    case None
    with Alt.prems have "rmatch b s g k = Some m" by simp
    from Alt.IH(2) [OF this] show ?thesis by fastforce
  next
    case (Some x)
    with Alt.prems have "rmatch a s g k = Some m" by simp
    from Alt.IH(1) [OF this] show ?thesis by fastforce
  qed
next
  case (Seq a b)
  then have "rmatch a s g (\<lambda>s' g'. rmatch b s' g' k) = Some m" by simp
  from Seq.IH(1) [OF this] obtain s1 na where
    b: "rmatch b s1 (na @ g) k = Some m" and ca: "captures a na"
    and le1: "length s1 \<le> length s" and lt1: "nonempty a \<longrightarrow> length s1 < length s"
    by blast
  from Seq.IH(2) [OF b] obtain s2 nb where
    k: "k s2 (nb @ na @ g) = Some m" and cb: "captures b nb"
    and le2: "length s2 \<le> length s1" and lt2: "nonempty b \<longrightarrow> length s2 < length s1"
    by blast
  from k ca cb le1 le2 lt1 lt2 show ?case
    by (intro exI [of _ s2] exI [of _ "nb @ na"]) auto
qed

lemma search_captures: "search r s = Some m \<Longrightarrow> captures r m"
proof (induction s)
  case Nil
  then have "rmatch r [] [] (\<lambda>s g. Some g) = Some m" by (simp add: search.simps)
  from rmatch_run [OF this] show ?case by auto
next
  case (Cons c cs)
  show ?case
  proof (cases "rmatch r (c # cs) [] (\<lambda>s g. Some g)")
    case None
    with Cons show ?thesis by (simp add: search.simps)
  next
    case (Some x)
    with Cons.prems have "rmatch r (c # cs) [] (\<lambda>s g. Some g) = Some m"
      by (simp add: search.simps)
    from rmatch_run [OF this] show ?thesis by auto
  qed
qed

lemma player_joined_group:
  "search player_joined line = Some m \<Longrightarrow> \<exists>p. group m 1 = Some p \<and> p \<noteq> []"
  by (drule search_captures) (auto simp: player_joined_def group_def)

lemma disconnect_post_join_group:
  "search disconnect_post_join line = Some m \<Longrightarrow> \<exists>p. group m 1 = Some p \<and> p \<noteq> []"
  by (drule search_captures) (auto simp: disconnect_post_join_def group_def)

lemma disconnect_pre_join_group:
  "search disconnect_pre_join line = Some m \<Longrightarrow> \<exists>p. group m 1 = Some p \<and> p \<noteq> []"
  by (drule search_captures) (auto simp: disconnect_pre_join_def group_def)

lemma queue_join_group:
  "search queue_join line = Some m \<Longrightarrow>
   \<exists>p. group_or (group m 2) (group m 3) = Some p \<and> p \<noteq> []"
  by (drule search_captures) (auto simp: queue_join_def group_def group_or_def)


lemma empty_capture_never: "\<not> empty_capture line"
  unfolding empty_capture_def
  using queue_join_group [of line] player_joined_group [of line]
    disconnect_post_join_group [of line] disconnect_pre_join_group [of line]
  by (auto simp: group1_def split: option.splits)

section \<open>The steps of a call\<close>

lemma counts_eta: "(c::counts)\<lparr>queue_count := q, player_count := p\<rparr> = \<lparr>queue_count = q, player_count = p\<rparr>"
  by (cases c) simp

lemma update_live_counts_ok:
  "player_states s k = Some st \<Longrightarrow> server_counts s k = Some r \<Longrightarrow>
   update_live_counts k s = Inr (s\<lparr>heap := (heap s)(r := spec_counts st)\<rparr>)"
  by (simp add: update_live_counts_def spec_counts_def Let_def counts_eta)

lemma set_add_ok:
  "player_states s k = Some st \<Longrightarrow>
   set_add f k p s = Inr (s\<lparr>player_states := (player_states s)(k \<mapsto> f (finsert p) st)\<rparr>)"
  by (simp add: set_add_def)

lemma set_member_ok:
  "player_states s k = Some st \<Longrightarrow> set_member f k p s = Inr (p |\<in>| f st)"
  by (simp add: set_member_def)

lemma init_player_states:
  "player_states (initialize_server_tracking k s) =
     (if k \<in> dom (player_states s) then player_states s else (player_states s)(k \<mapsto> no_states))"
  by (simp add: initialize_server_tracking_def alloc_def Let_def no_states_def)

lemma init_server_counts:
  "server_counts (initialize_server_tracking k s) =
     (if k \<in> dom (server_counts s) then server_counts s else (server_counts s)(k \<mapsto> next_ref s))"
  by (simp add: initialize_server_tracking_def alloc_def Let_def)

lemma init_heap:
  "heap (initialize_server_tracking k s) =
     (if k \<in> dom (server_counts s) then heap s
      else (heap s)(next_ref s := \<lparr>queue_count = 0, player_count = 0\<rparr>))"
  by (simp add: initialize_server_tracking_def alloc_def Let_def)

lemma init_next_ref:
  "next_ref (initialize_server_tracking k s) =
     (if k \<in> dom (server_counts s) then next_ref s else Suc (next_ref s))"
  by (simp add: initialize_server_tracking_def alloc_def Let_def)

lemma init_tracked:
  "\<exists>st r. player_states (initialize_server_tracking k s) k = Some st
        \<and> server_counts (initialize_server_tracking k s) k = Some r"
  by (auto simp: init_player_states init_server_counts)

lemma init_known:
  "player_states s k = Some st \<Longrightarrow> server_counts s k = Some r \<Longrightarrow>
   initialize_server_tracking k s = s"
  by (simp add: initialize_server_tracking_def Let_def dom_def)


lemmas step_simps = parse_lifecycle_event_def Let_def and_then_def set_add_ok set_member_ok
  update_live_counts_ok

lemma parse_jq:
  assumes "search queue_join line = Some m"
    and "player_states (initialize_server_tracking k s) k = Some st"
    and "server_counts (initialize_server_tracking k s) k = Some r"
  shows "\<exists>pid. group_or (group m 2) (group m 3) = Some pid \<and> pid \<noteq> [] \<and>
     parse_lifecycle_event b n line k g s =
       Inr ((initialize_server_tracking k s)
              \<lparr>player_states := (player_states (initialize_server_tracking k s))
                 (k \<mapsto> players_queued_update (finsert pid) st),
               heap := (heap (initialize_server_tracking k s))
                 (r := spec_counts (players_queued_update (finsert pid) st))\<rparr>,
            None, Some ''jq'')"
proof -
  from queue_join_group [OF assms(1)] obtain pid where
    pid: "group_or (group m 2) (group m 3) = Some pid" "pid \<noteq> []" by blast
  with assms show ?thesis by (simp add: step_simps)
qed

lemma parse_j2:
  assumes "search queue_join line = None" and "search player_joined line = Some m"
    and "player_states (initialize_server_tracking k s) k = Some st"
    and "server_counts (initialize_server_tracking k s) k = Some r"
  shows "parse_lifecycle_event b n line k g s =
       Inr ((initialize_server_tracking k s)
              \<lparr>player_states := (player_states (initialize_server_tracking k s))
                 (k \<mapsto> players_joined_update (finsert (group1 m)) st),
               heap := (heap (initialize_server_tracking k s))
                 (r := spec_counts (players_joined_update (finsert (group1 m)) st))\<rparr>,
            Some (create_join_embed b n (group1 m) None), Some ''j2'')"
  using assms by (simp add: step_simps)

lemma parse_d1:
  assumes "search queue_join line = None" and "search player_joined line = None"
    and "search disconnect_post_join line = Some m"
    and "player_states (initialize_server_tracking k s) k = Some st"
    and "group1 m |\<in>| players_joined st"
  shows "parse_lifecycle_event b n line k g s =
       Inr ((initialize_server_tracking k s)
              \<lparr>player_states := (player_states (initialize_server_tracking k s))
                 (k \<mapsto> players_disconnected_post_update (finsert (group1 m)) st)\<rparr>,
            Some (create_leave_embed b n (group1 m) None), Some ''d1'')"
  using assms by (simp add: step_simps)

lemma parse_d2:
  assumes "search queue_join line = None" and "search player_joined line = None"
    and "search disconnect_post_join line = Some m"
    and "player_states (initialize_server_tracking k s) k = Some st"
    and "server_counts (initialize_server_tracking k s) k = Some r"
    and "group1 m |\<notin>| players_joined st" and "group1 m |\<in>| players_queued st"
  shows "parse_lifecycle_event b n line k g s =
       Inr ((initialize_server_tracking k s)
              \<lparr>player_states := (player_states (initialize_server_tracking k s))
                 (k \<mapsto> players_disconnected_pre_update (finsert (group1 m)) st),
               heap := (heap (initialize_server_tracking k s))
                 (r := spec_counts (players_disconnected_pre_update (finsert (group1 m)) st))\<rparr>,
            None, Some ''d2'')"
  using assms by (simp add: step_simps)

lemma parse_d_unknown:
  assumes "search queue_join line = None" and "search player_joined line = None"
    and "search disconnect_post_join line = Some m"
    and "player_states (initialize_server_tracking k s) k = Some st"
    and "server_counts (initialize_server_tracking k s) k = Some r"
    and "group1 m |\<notin>| players_joined st" and "group1 m |\<notin>| players_queued st"
  shows "parse_lifecycle_event b n line k g s =
       Inr ((initialize_server_tracking k s)
              \<lparr>heap := (heap (initialize_server_tracking k s)) (r := spec_counts st)\<rparr>,
            None, None)"
  using assms by (simp add: step_simps)

lemma parse_alt_d2:
  assumes "search queue_join line = None" and "search player_joined line = None"
    and "search disconnect_post_join line = None"
    and "search disconnect_pre_join line = Some m"
    and "player_states (initialize_server_tracking k s) k = Some st"
    and "server_counts (initialize_server_tracking k s) k = Some r"
    and "group1 m |\<in>| players_queued st" and "group1 m |\<notin>| players_joined st"
  shows "parse_lifecycle_event b n line k g s =
       Inr ((initialize_server_tracking k s)
              \<lparr>player_states := (player_states (initialize_server_tracking k s))
                 (k \<mapsto> players_disconnected_pre_update (finsert (group1 m)) st),
               heap := (heap (initialize_server_tracking k s))
                 (r := spec_counts (players_disconnected_pre_update (finsert (group1 m)) st))\<rparr>,
            None, Some ''d2'')"
  using assms by (simp add: step_simps)

lemma parse_alt_none:
  assumes "search queue_join line = None" and "search player_joined line = None"
    and "search disconnect_post_join line = None"
    and "search disconnect_pre_join line = Some m"
    and "player_states (initialize_server_tracking k s) k = Some st"
    and "\<not> (group1 m |\<in>| players_queued st \<and> group1 m |\<notin>| players_joined st)"
  shows "parse_lifecycle_event b n line k g s = Inr (initialize_server_tracking k s, None, None)"
  using assms by (auto simp add: step_simps)

lemma parse_no_match:
  assumes "search queue_join line = None" and "search player_joined line = None"
    and "search disconnect_post_join line = None"
    and "search disconnect_pre_join line = None"
  shows "parse_lifecycle_event b n line k g s = Inr (initialize_server_tracking k s, None, None)"
  using assms by (simp add: step_simps)


lemma grows_refl: "grows st st"
  by (simp add: grows_def)

lemma grows_trans: "grows a b \<Longrightarrow> grows b c \<Longrightarrow> grows a c"
  by (auto simp: grows_def)

lemma init_self:
  "player_states s k = Some st \<Longrightarrow> server_counts s k = Some r \<Longrightarrow>
   s\<lparr>player_states := (player_states s)(k \<mapsto> st), heap := heap s\<rparr> = s"
  by (cases s) (auto simp: fun_eq_iff)

lemma parse_uniform:
  "\<exists>st' ret ev upd. grows st st' \<and>
     (\<forall>s r. player_states (initialize_server_tracking k s) k = Some st
        \<longrightarrow> server_counts (initialize_server_tracking k s) k = Some r
        \<longrightarrow> parse_lifecycle_event b n line k g s =
              Inr ((initialize_server_tracking k s)
                \<lparr>player_states := (player_states (initialize_server_tracking k s))(k \<mapsto> st'),
                 heap := (if upd then (heap (initialize_server_tracking k s))(r := spec_counts st')
                          else heap (initialize_server_tracking k s))\<rparr>, ret, ev))"
proof (cases "search queue_join line")
  case (Some m)
  from queue_join_group [OF Some] obtain pid where
    pid: "group_or (group m 2) (group m 3) = Some pid" by blast
  show ?thesis
    apply (rule exI [of _ "players_queued_update (finsert pid) st"])
    apply (rule exI [of _ None], rule exI [of _ "Some ''jq''"], rule exI [of _ True])
    using parse_jq [OF Some, of k _ st _ b n g] pid
    by (auto simp: grows_def)
next
  case n1: None
  show ?thesis
  proof (cases "search player_joined line")
    case (Some m)
    show ?thesis
      apply (rule exI [of _ "players_joined_update (finsert (group1 m)) st"])
      apply (rule exI [of _ "Some (create_join_embed b n (group1 m) None)"],
          rule exI [of _ "Some ''j2''"], rule exI [of _ True])
      using parse_j2 [OF n1 Some, of k _ st _ b n g]
      by (auto simp: grows_def)
  next
    case n2: None
    show ?thesis
    proof (cases "search disconnect_post_join line")
      case (Some m)
      consider "group1 m |\<in>| players_joined st"
        | "group1 m |\<notin>| players_joined st" "group1 m |\<in>| players_queued st"
        | "group1 m |\<notin>| players_joined st" "group1 m |\<notin>| players_queued st"
        by blast
      then show ?thesis
      proof cases
        case 1
        show ?thesis
          apply (rule exI [of _ "players_disconnected_post_update (finsert (group1 m)) st"])
          apply (rule exI [of _ "Some (create_leave_embed b n (group1 m) None)"],
              rule exI [of _ "Some ''d1''"], rule exI [of _ False])
          using parse_d1 [OF n1 n2 Some _ 1, of k _ b n g]
          by (auto simp: grows_def)
      next
        case 2
        show ?thesis
          apply (rule exI [of _ "players_disconnected_pre_update (finsert (group1 m)) st"])
          apply (rule exI [of _ None], rule exI [of _ "Some ''d2''"], rule exI [of _ True])
          using parse_d2 [OF n1 n2 Some _ _ 2, of k _ _ b n g]
          by (auto simp: grows_def)
      next
        case 3
        show ?thesis
          apply (rule exI [of _ st])
          apply (rule exI [of _ None], rule exI [of _ None], rule exI [of _ True])
          using parse_d_unknown [OF n1 n2 Some _ _ 3, of k _ _ b n g]
          by (auto simp: grows_def map_upd_triv)
      qed
    next
      case n3: None
      show ?thesis
      proof (cases "search disconnect_pre_join line")
        case (Some m)
        show ?thesis
        proof (cases "group1 m |\<in>| players_queued st \<and> group1 m |\<notin>| players_joined st")
          case True
          then have t: "group1 m |\<in>| players_queued st" "group1 m |\<notin>| players_joined st"
            by simp_all
          show ?thesis
            apply (rule exI [of _ "players_disconnected_pre_update (finsert (group1 m)) st"])
            apply (rule exI [of _ None], rule exI [of _ "Some ''d2''"], rule exI [of _ True])
            using parse_alt_d2 [OF n1 n2 n3 Some _ _ t, of k _ _ b n g]
            by (auto simp: grows_def)
        next
          case False
          show ?thesis
            apply (rule exI [of _ st])
            apply (rule exI [of _ None], rule exI [of _ None], rule exI [of _ False])
            using parse_alt_none [OF n1 n2 n3 Some _ False, of k _ b n g]
            by (auto simp: grows_def map_upd_triv)
        qed
      next
        case None
        show ?thesis
          apply (rule exI [of _ st])
          apply (rule exI [of _ None], rule exI [of _ None], rule exI [of _ False])
          using parse_no_match [OF n1 n2 n3 None, of b n k g]
          by (auto simp: grows_def map_upd_triv)
      qed
    qed
  qed
qed


lemma parse_shape:
  assumes ps: "player_states (initialize_server_tracking k s) k = Some st"
    and sc: "server_counts (initialize_server_tracking k s) k = Some r"
  shows "\<exists>st' h ret ev.
     parse_lifecycle_event b n line k g s =
       Inr ((initialize_server_tracking k s)
              \<lparr>player_states := (player_states (initialize_server_tracking k s))(k \<mapsto> st'),
               heap := h\<rparr>, ret, ev)
     \<and> grows st st'
     \<and> (h = heap (initialize_server_tracking k s)
        \<or> h = (heap (initialize_server_tracking k s))(r := spec_counts st'))"
proof -
  from parse_uniform [of st k b n line g] obtain st' ret ev upd where
    g: "grows st st'"
    and p: "\<forall>s r. player_states (initialize_server_tracking k s) k = Some st
        \<longrightarrow> server_counts (initialize_server_tracking k s) k = Some r
        \<longrightarrow> parse_lifecycle_event b n line k g s =
              Inr ((initialize_server_tracking k s)
                \<lparr>player_states := (player_states (initialize_server_tracking k s))(k \<mapsto> st'),
                 heap := (if upd then (heap (initialize_server_tracking k s))(r := spec_counts st')
                          else heap (initialize_server_tracking k s))\<rparr>, ret, ev)"
    by blast
  from p ps sc have "parse_lifecycle_event b n line k g s =
              Inr ((initialize_server_tracking k s)
                \<lparr>player_states := (player_states (initialize_server_tracking k s))(k \<mapsto> st'),
                 heap := (if upd then (heap (initialize_server_tracking k s))(r := spec_counts st')
                          else heap (initialize_server_tracking k s))\<rparr>, ret, ev)"
    by blast
  moreover have "(if upd then (heap (initialize_server_tracking k s))(r := spec_counts st')
                  else heap (initialize_server_tracking k s)) = heap (initialize_server_tracking k s)
      \<or> (if upd then (heap (initialize_server_tracking k s))(r := spec_counts st')
                  else heap (initialize_server_tracking k s))
          = (heap (initialize_server_tracking k s))(r := spec_counts st')"
    by simp
  ultimately show ?thesis using g by blast
qed

lemma init_idem:
  "initialize_server_tracking k (initialize_server_tracking k s) = initialize_server_tracking k s"
proof -
  from init_tracked [of k s] obtain st r where
    "player_states (initialize_server_tracking k s) k = Some st"
    "server_counts (initialize_server_tracking k s) k = Some r" by blast
  then show ?thesis by (rule init_known)
qed

lemma get_live_counts_ok:
  assumes "server_counts (initialize_server_tracking k s) k = Some r"
  shows "get_live_counts k s =
     Inr ((initialize_server_tracking k s)
            \<lparr>heap := (heap (initialize_server_tracking k s))
               (next_ref (initialize_server_tracking k s) := heap (initialize_server_tracking k s) r),
             next_ref := Suc (next_ref (initialize_server_tracking k s))\<rparr>,
          next_ref (initialize_server_tracking k s))"
  using assms by (simp add: get_live_counts_def alloc_def Let_def)

lemma live_counts_eq:
  assumes "server_counts (initialize_server_tracking k s) k = Some r"
  shows "live_counts k s = Some (heap (initialize_server_tracking k s) r)"
  using get_live_counts_ok [OF assms] by (simp add: live_counts_def)

lemma live_counts_init:
  "live_counts k (initialize_server_tracking k s) = live_counts k s"
proof -
  from init_tracked [of k s] obtain r where
    r: "server_counts (initialize_server_tracking k s) k = Some r" by blast
  then have "server_counts (initialize_server_tracking k (initialize_server_tracking k s)) k = Some r"
    by (simp add: init_idem)
  from live_counts_eq [OF this] live_counts_eq [OF r] show ?thesis
    by (simp add: init_idem)
qed

section \<open>Lines that are no event\<close>

text \<open>
  C9: a line that none of the four patterns matches, and a line on which a pattern
  matched with an empty identifier, leaves the sets and the stored counters of the key
  as they are, returns no notification and raises nothing. The state after the call is
  the one \<^verbatim>\<open>initialize_server_tracking\<close> gives: the state itself for a key that is
  tracked, empty sets and zero counters for a key that was not. A pattern never matches
  with an empty identifier (\<open>empty_capture_never\<close>), since \<^verbatim>\<open>\w+\<close> takes at least one
  character.
\<close>

theorem unknown_line_ignored:
  assumes "(search queue_join line = None \<and> search player_joined line = None
            \<and> search disconnect_post_join line = None \<and> search disconnect_pre_join line = None)
           \<or> empty_capture line"
  shows "parse_lifecycle_event build now line server_key guild_id s =
           Inr (initialize_server_tracking server_key s, None, None)
     \<and> player_states (initialize_server_tracking server_key s) server_key =
           Some (case player_states s server_key of None \<Rightarrow> no_states | Some st \<Rightarrow> st)
     \<and> live_counts server_key (initialize_server_tracking server_key s) = live_counts server_key s
     \<and> (server_key \<in> dom (server_counts s) \<and> server_key \<in> dom (player_states s)
          \<longrightarrow> initialize_server_tracking server_key s = s)"
proof -
  from assms empty_capture_never [of line] have none:
    "search queue_join line = None" "search player_joined line = None"
    "search disconnect_post_join line = None" "search disconnect_pre_join line = None"
    by simp_all
  have "player_states (initialize_server_tracking server_key s) server_key =
           Some (case player_states s server_key of None \<Rightarrow> no_states | Some st \<Rightarrow> st)"
    by (cases "player_states s server_key") (auto simp: init_player_states)
  moreover have "server_key \<in> dom (server_counts s) \<and> server_key \<in> dom (player_states s)
          \<longrightarrow> initialize_server_tracking server_key s = s"
    by (auto intro: init_known)
  ultimately show ?thesis
    using parse_no_match [OF none] live_counts_init by simp
qed

text \<open>A line that is no log record.\<close>

lemma hello_1: "search queue_join ''hello'' = None"
  by (simp add: rx_simps)
lemma hello_2: "search player_joined ''hello'' = None"
  by (simp add: rx_simps)
lemma hello_3: "search disconnect_post_join ''hello'' = None"
  by (simp add: rx_simps)
lemma hello_4: "search disconnect_pre_join ''hello'' = None"
  by (simp add: rx_simps)

theorem unknown_line_ignored_witness:
  "((search queue_join ''hello'' = None \<and> search player_joined ''hello'' = None
      \<and> search disconnect_post_join ''hello'' = None \<and> search disconnect_pre_join ''hello'' = None)
     \<or> empty_capture ''hello'')
   \<and> parse_lifecycle_event build0 () ''hello'' ''7_main'' 7 new_parser =
        Inr (initialize_server_tracking ''7_main'' new_parser, None, None)
   \<and> live_counts ''7_main'' (initialize_server_tracking ''7_main'' new_parser) =
        Some \<lparr>queue_count = 0, player_count = 0\<rparr>"
proof -
  have h: "(search queue_join ''hello'' = None \<and> search player_joined ''hello'' = None
      \<and> search disconnect_post_join ''hello'' = None \<and> search disconnect_pre_join ''hello'' = None)
     \<or> empty_capture ''hello''"
    by (simp add: hello_1 hello_2 hello_3 hello_4)
  have "live_counts ''7_main'' new_parser = Some \<lparr>queue_count = 0, player_count = 0\<rparr>"
    by (simp add: live_counts_def get_live_counts_def initialize_server_tracking_def
        alloc_def new_parser_def Let_def)
  with h unknown_line_ignored [OF h, of build0 "()" "''7_main''" 7 new_parser]
  show ?thesis by simp
qed


section \<open>The same line twice\<close>

lemma add_twice: "finsert p \<circ> finsert p = finsert p"
  by (rule ext) simp

lemma step_again:
  assumes "server_counts s0 k = Some r"
  shows "initialize_server_tracking k (s0\<lparr>player_states := (player_states s0)(k \<mapsto> st1), heap := h\<rparr>)
           = s0\<lparr>player_states := (player_states s0)(k \<mapsto> st1), heap := h\<rparr>"
  using assms by (intro init_known [where st = st1 and r = r]) simp_all

lemma twice_aux:
  assumes ps: "player_states (initialize_server_tracking k s) k = Some st"
    and sc: "server_counts (initialize_server_tracking k s) k = Some r"
  shows "\<exists>s1 ret ev. parse_lifecycle_event b n line k g s = Inr (s1, ret, ev)
           \<and> parse_lifecycle_event b n line k g s1 = Inr (s1, ret, ev)"
proof (cases "search queue_join line")
  case (Some m)
  from parse_jq [OF Some ps sc, of b n g] obtain pid where
    pid: "group_or (group m 2) (group m 3) = Some pid"
    and 1: "parse_lifecycle_event b n line k g s =
       Inr ((initialize_server_tracking k s)
              \<lparr>player_states := (player_states (initialize_server_tracking k s))
                 (k \<mapsto> players_queued_update (finsert pid) st),
               heap := (heap (initialize_server_tracking k s))
                 (r := spec_counts (players_queued_update (finsert pid) st))\<rparr>,
            None, Some ''jq'')" (is "_ = Inr (?s1, _, _)")
    by blast
  have i: "initialize_server_tracking k ?s1 = ?s1" using sc by (rule step_again)
  have "parse_lifecycle_event b n line k g ?s1 = Inr (?s1, None, Some ''jq'')"
    using parse_jq [OF Some, of k ?s1 "players_queued_update (finsert pid) st" r b n g] pid sc
    by (simp add: i add_twice)
  with 1 show ?thesis by simp
next
  case n1: None
  show ?thesis
  proof (cases "search player_joined line")
    case (Some m)
    let ?st1 = "players_joined_update (finsert (group1 m)) st"
    let ?s1 = "(initialize_server_tracking k s)
              \<lparr>player_states := (player_states (initialize_server_tracking k s))(k \<mapsto> ?st1),
               heap := (heap (initialize_server_tracking k s))(r := spec_counts ?st1)\<rparr>"
    have 1: "parse_lifecycle_event b n line k g s =
       Inr (?s1, Some (create_join_embed b n (group1 m) None), Some ''j2'')"
      using parse_j2 [OF n1 Some ps sc] .
    have i: "initialize_server_tracking k ?s1 = ?s1" using sc by (rule step_again)
    have "parse_lifecycle_event b n line k g ?s1 =
       Inr (?s1, Some (create_join_embed b n (group1 m) None), Some ''j2'')"
      using parse_j2 [OF n1 Some, of k ?s1 ?st1 r b n g] sc
      by (simp add: i add_twice)
    with 1 show ?thesis by simp
  next
    case n2: None
    show ?thesis
    proof (cases "search disconnect_post_join line")
      case (Some m)
      consider "group1 m |\<in>| players_joined st"
        | "group1 m |\<notin>| players_joined st" "group1 m |\<in>| players_queued st"
        | "group1 m |\<notin>| players_joined st" "group1 m |\<notin>| players_queued st"
        by blast
      then show ?thesis
      proof cases
        case 1
        let ?st1 = "players_disconnected_post_update (finsert (group1 m)) st"
        let ?s1 = "(initialize_server_tracking k s)
              \<lparr>player_states := (player_states (initialize_server_tracking k s))(k \<mapsto> ?st1)\<rparr>"
        have a: "parse_lifecycle_event b n line k g s =
           Inr (?s1, Some (create_leave_embed b n (group1 m) None), Some ''d1'')"
          using parse_d1 [OF n1 n2 Some ps 1, of b n g] by simp
        have i: "initialize_server_tracking k ?s1 = ?s1"
          using step_again [OF sc, where ?st1.0 = ?st1 and h = "heap (initialize_server_tracking k s)"]
          by simp
        have "parse_lifecycle_event b n line k g ?s1 =
           Inr (?s1, Some (create_leave_embed b n (group1 m) None), Some ''d1'')"
          using parse_d1 [OF n1 n2 Some, of k ?s1 ?st1 b n g] 1
          by (simp add: i add_twice)
        with a show ?thesis by simp
      next
        case 2
        let ?st1 = "players_disconnected_pre_update (finsert (group1 m)) st"
        let ?s1 = "(initialize_server_tracking k s)
              \<lparr>player_states := (player_states (initialize_server_tracking k s))(k \<mapsto> ?st1),
               heap := (heap (initialize_server_tracking k s))(r := spec_counts ?st1)\<rparr>"
        have a: "parse_lifecycle_event b n line k g s = Inr (?s1, None, Some ''d2'')"
          using parse_d2 [OF n1 n2 Some ps sc 2] .
        have i: "initialize_server_tracking k ?s1 = ?s1" using sc by (rule step_again)
        have "parse_lifecycle_event b n line k g ?s1 = Inr (?s1, None, Some ''d2'')"
          using parse_d2 [OF n1 n2 Some, of k ?s1 ?st1 r b n g] 2 sc
          by (simp add: i add_twice)
        with a show ?thesis by simp
      next
        case 3
        let ?s1 = "(initialize_server_tracking k s)
              \<lparr>heap := (heap (initialize_server_tracking k s))(r := spec_counts st)\<rparr>"
        have a: "parse_lifecycle_event b n line k g s = Inr (?s1, None, None)"
          using parse_d_unknown [OF n1 n2 Some ps sc 3] .
        have i: "initialize_server_tracking k ?s1 = ?s1"
          using ps sc by (intro init_known [where st = st and r = r]) simp_all
        have "parse_lifecycle_event b n line k g ?s1 = Inr (?s1, None, None)"
          using parse_d_unknown [OF n1 n2 Some, of k ?s1 st r b n g] 3 sc ps
          by (simp add: i)
        with a show ?thesis by simp
      qed
    next
      case n3: None
      have i0: "initialize_server_tracking k (initialize_server_tracking k s) =
                initialize_server_tracking k s"
        by (rule init_idem)
      show ?thesis
      proof (cases "search disconnect_pre_join line")
        case (Some m)
        show ?thesis
        proof (cases "group1 m |\<in>| players_queued st \<and> group1 m |\<notin>| players_joined st")
          case True
          then have t: "group1 m |\<in>| players_queued st" "group1 m |\<notin>| players_joined st"
            by simp_all
          let ?st1 = "players_disconnected_pre_update (finsert (group1 m)) st"
          let ?s1 = "(initialize_server_tracking k s)
              \<lparr>player_states := (player_states (initialize_server_tracking k s))(k \<mapsto> ?st1),
               heap := (heap (initialize_server_tracking k s))(r := spec_counts ?st1)\<rparr>"
          have a: "parse_lifecycle_event b n line k g s = Inr (?s1, None, Some ''d2'')"
            using parse_alt_d2 [OF n1 n2 n3 Some ps sc t] .
          have i: "initialize_server_tracking k ?s1 = ?s1" using sc by (rule step_again)
          have "parse_lifecycle_event b n line k g ?s1 = Inr (?s1, None, Some ''d2'')"
            using parse_alt_d2 [OF n1 n2 n3 Some, of k ?s1 ?st1 r b n g] t sc
            by (simp add: i add_twice)
          with a show ?thesis by simp
        next
          case False
          have a: "parse_lifecycle_event b n line k g s =
                   Inr (initialize_server_tracking k s, None, None)"
            using parse_alt_none [OF n1 n2 n3 Some ps False] .
          have "parse_lifecycle_event b n line k g (initialize_server_tracking k s) =
                   Inr (initialize_server_tracking k s, None, None)"
            using parse_alt_none [OF n1 n2 n3 Some, of k "initialize_server_tracking k s" st b n g]
              ps False by (simp add: i0)
          with a show ?thesis by simp
        qed
      next
        case None
        from parse_no_match [OF n1 n2 n3 None, of b n k g] i0
        show ?thesis by simp
      qed
    qed
  qed
qed

text \<open>
  C8: applying the same log line twice in succession, with the same server key, leaves
  the stored counters and the sets after the second application as they are after the
  first; the second call returns the very state it was given, and the same result.
\<close>

theorem same_line_twice:
  "\<exists>s1 ret ev.
     parse_lifecycle_event build now line server_key guild_id s = Inr (s1, ret, ev)
     \<and> (\<exists>s2. parse_lifecycle_event build now line server_key guild_id s1 = Inr (s2, ret, ev)
            \<and> stored_counts s2 server_key = stored_counts s1 server_key
            \<and> player_states s2 server_key = player_states s1 server_key
            \<and> s2 = s1)"
proof -
  from init_tracked [of server_key s] obtain st r where
    "player_states (initialize_server_tracking server_key s) server_key = Some st"
    "server_counts (initialize_server_tracking server_key s) server_key = Some r" by blast
  from twice_aux [OF this, of build now line guild_id] show ?thesis by auto
qed


section \<open>What a call keeps\<close>

lemma parse_frame:
  "\<exists>s' ret ev st st' r.
     parse_lifecycle_event b n line k g s = Inr (s', ret, ev)
     \<and> player_states (initialize_server_tracking k s) k = Some st
     \<and> server_counts (initialize_server_tracking k s) k = Some r
     \<and> player_states s' = (player_states (initialize_server_tracking k s))(k \<mapsto> st')
     \<and> grows st st'
     \<and> server_counts s' = server_counts (initialize_server_tracking k s)
     \<and> next_ref s' = next_ref (initialize_server_tracking k s)
     \<and> (heap s' = heap (initialize_server_tracking k s)
        \<or> heap s' = (heap (initialize_server_tracking k s))(r := spec_counts st'))"
proof -
  from init_tracked [of k s] obtain st r where
    ps: "player_states (initialize_server_tracking k s) k = Some st"
    and sc: "server_counts (initialize_server_tracking k s) k = Some r" by blast
  from parse_shape [OF ps sc, of b n line g] obtain st' h ret ev where
    p: "parse_lifecycle_event b n line k g s =
       Inr ((initialize_server_tracking k s)
              \<lparr>player_states := (player_states (initialize_server_tracking k s))(k \<mapsto> st'),
               heap := h\<rparr>, ret, ev)"
    and g: "grows st st'"
    and h: "h = heap (initialize_server_tracking k s)
        \<or> h = (heap (initialize_server_tracking k s))(r := spec_counts st')"
    by blast
  show ?thesis
    apply (rule exI [of _ "(initialize_server_tracking k s)
              \<lparr>player_states := (player_states (initialize_server_tracking k s))(k \<mapsto> st'),
               heap := h\<rparr>"])
    apply (rule exI [of _ ret], rule exI [of _ ev], rule exI [of _ st], rule exI [of _ st'],
        rule exI [of _ r])
    using p g h ps sc by simp
qed

lemma nonneg_spec_counts: "nonneg (spec_counts st)"
  by (simp add: nonneg_def spec_counts_def)

lemma init_nonneg:
  "\<forall>r. nonneg (heap s r) \<Longrightarrow> \<forall>r. nonneg (heap (initialize_server_tracking k s) r)"
  by (simp add: init_heap nonneg_def)

lemma parse_nonneg:
  assumes "\<forall>r. nonneg (heap s r)"
    and "parse_lifecycle_event b n line k g s = Inr (s', ret, ev)"
  shows "\<forall>r. nonneg (heap s' r)"
proof -
  from parse_frame [of b n line k g s] assms(2) obtain st' r0 where
    "heap s' = heap (initialize_server_tracking k s)
        \<or> heap s' = (heap (initialize_server_tracking k s))(r0 := spec_counts st')"
    by auto
  with init_nonneg [OF assms(1), of k] nonneg_spec_counts show ?thesis
    by auto
qed

lemma parse_total:
  "\<exists>s' ret ev. parse_lifecycle_event b n line k g s = Inr (s', ret, ev)"
  using parse_frame [of b n line k g s] by blast

lemma get_live_counts_total: "\<exists>s' r. get_live_counts k s = Inr (s', r)"
proof -
  from init_tracked [of k s] obtain r where
    "server_counts (initialize_server_tracking k s) k = Some r" by blast
  from get_live_counts_ok [OF this] show ?thesis by blast
qed

lemma get_nonneg:
  assumes "\<forall>r. nonneg (heap s r)" and "get_live_counts k s = Inr (s', r')"
  shows "\<forall>r. nonneg (heap s' r)"
proof -
  from init_tracked [of k s] obtain r where
    "server_counts (initialize_server_tracking k s) k = Some r" by blast
  from get_live_counts_ok [OF this] assms(2) init_nonneg [OF assms(1), of k]
  show ?thesis by auto
qed

lemma reset_heap: "heap (reset_server_counts k s) = heap s"
  by (simp add: reset_server_counts_def Let_def)

lemma run_nonneg:
  "\<forall>r. nonneg (heap s r) \<Longrightarrow> \<exists>s'. run b n ops s = Inr s' \<and> (\<forall>r. nonneg (heap s' r))"
proof (induction ops arbitrary: s)
  case Nil
  then show ?case by simp
next
  case (Cons x ops)
  show ?case
  proof (cases x)
    case (Parse line k g)
    from parse_total [of b n line k g s] obtain s1 ret ev where
      p: "parse_lifecycle_event b n line k g s = Inr (s1, ret, ev)" by blast
    from Cons.IH [OF parse_nonneg [OF Cons.prems p]] p Parse show ?thesis by simp
  next
    case (GetLiveCounts k)
    from get_live_counts_total [of k s] obtain s1 r where
      p: "get_live_counts k s = Inr (s1, r)" by blast
    from Cons.IH [OF get_nonneg [OF Cons.prems p]] p GetLiveCounts show ?thesis by simp
  next
    case (Reset k)
    from Cons.prems have "\<forall>r. nonneg (heap (reset_server_counts k s) r)"
      by (simp add: reset_heap)
    from Cons.IH [OF this] Reset show ?thesis by simp
  qed
qed

text \<open>
  C6: whatever lines are parsed for whatever keys, with whatever resets and reads in
  between, every call returns and the stored \<open>queue_count\<close> and \<open>player_count\<close> of
  every key are at least 0.
\<close>

theorem counters_never_negative:
  "\<exists>s'. run build now ops new_parser = Inr s'
     \<and> (\<forall>server_key c. stored_counts s' server_key = Some c
            \<longrightarrow> 0 \<le> queue_count c \<and> 0 \<le> player_count c)"
proof -
  have "\<forall>r. nonneg (heap new_parser r)"
    by (simp add: new_parser_def nonneg_def)
  from run_nonneg [OF this, of build now ops] show ?thesis
    by (auto simp: stored_counts_def nonneg_def)
qed


section \<open>Concrete lines and runs\<close>

lemma queue_line_A_1: "search queue_join queue_line_A = Some [(3, ''A''), (1, ''Ann'')]"
  by (simp add: rx_simps queue_line_A_def)
lemma queue_line_B_1: "search queue_join queue_line_B = Some [(2, ''B''), (1, ''Bob'')]"
  by (simp add: rx_simps queue_line_B_def)
lemma join_line_A_1: "search queue_join join_line_A = None"
  by (simp add: rx_simps join_line_A_def)
lemma join_line_A_2: "search player_joined join_line_A = Some [(1, ''A'')]"
  by (simp add: rx_simps join_line_A_def)
lemma close_line_A_1: "search queue_join close_line_A = None"
  by (simp add: rx_simps close_line_A_def)
lemma close_line_A_2: "search player_joined close_line_A = None"
  by (simp add: rx_simps close_line_A_def)
lemma close_line_A_3: "search disconnect_post_join close_line_A = Some [(1, ''A'')]"
  by (simp add: rx_simps close_line_A_def)
lemma close_line_B_1: "search queue_join close_line_B = None"
  by (simp add: rx_simps close_line_B_def)
lemma close_line_B_2: "search player_joined close_line_B = None"
  by (simp add: rx_simps close_line_B_def)
lemma close_line_B_3: "search disconnect_post_join close_line_B = Some [(1, ''B'')]"
  by (simp add: rx_simps close_line_B_def)
lemma close_ps5_line_B_1: "search queue_join close_ps5_line_B = None"
  by (simp add: rx_simps close_ps5_line_B_def)
lemma close_ps5_line_B_2: "search player_joined close_ps5_line_B = None"
  by (simp add: rx_simps close_ps5_line_B_def)
lemma close_ps5_line_B_3: "search disconnect_post_join close_ps5_line_B = None"
  by (simp add: rx_simps close_ps5_line_B_def)
lemma close_ps5_line_B_4: "search disconnect_pre_join close_ps5_line_B = Some [(1, ''B'')]"
  by (simp add: rx_simps close_ps5_line_B_def)
lemma join_close_line_A_1: "search queue_join join_close_line_A = None"
  by (simp add: rx_simps join_close_line_A_def)
lemma join_close_line_A_2: "search player_joined join_close_line_A = Some [(1, ''A'')]"
  by (simp add: rx_simps join_close_line_A_def)
lemma join_close_line_A_3: "search disconnect_post_join join_close_line_A = Some [(1, ''A'')]"
  by (simp add: rx_simps join_close_line_A_def)

lemmas line_facts = queue_line_A_1 queue_line_B_1 join_line_A_1 join_line_A_2
  close_line_A_1 close_line_A_2 close_line_A_3 close_line_B_1 close_line_B_2 close_line_B_3
  close_ps5_line_B_1 close_ps5_line_B_2 close_ps5_line_B_3 close_ps5_line_B_4
  join_close_line_A_1 join_close_line_A_2 join_close_line_A_3

lemmas eval_simps = parse_lifecycle_event_def Let_def and_then_def set_add_def set_member_def
  update_live_counts_def initialize_server_tracking_def alloc_def new_parser_def
  group1_def group_def group_or_def fcard_finsert_if after_def stored_counts_def
  reset_server_counts_def get_live_counts_def


lemma run_total: "\<exists>s'. run b n ops s = Inr s'"
proof (induction ops arbitrary: s)
  case Nil
  then show ?case by simp
next
  case (Cons x ops)
  show ?case
  proof (cases x)
    case (Parse line k g)
    from parse_total [of b n line k g s] obtain s1 ret ev where
      "parse_lifecycle_event b n line k g s = Inr (s1, ret, ev)" by blast
    with Cons.IH [of s1] Parse show ?thesis by simp
  next
    case (GetLiveCounts k)
    from get_live_counts_total [of k s] obtain s1 r where
      "get_live_counts k s = Inr (s1, r)" by blast
    with Cons.IH [of s1] GetLiveCounts show ?thesis by simp
  next
    case (Reset k)
    with Cons.IH [of "reset_server_counts k s"] show ?thesis by simp
  qed
qed

lemma run_after: "run build0 () ops new_parser = Inr (after ops)"
  using run_total [of build0 "()" ops new_parser] by (auto simp: after_def)

text \<open>The run of C6 at three lines for one key.\<close>

theorem counters_never_negative_witness:
  "stored_counts (after [Parse queue_line_A ''7_main'' 7, Parse queue_line_B ''7_main'' 7,
       Parse join_line_A ''7_main'' 7]) ''7_main'' = Some \<lparr>queue_count = 1, player_count = 1\<rparr>
   \<and> (0::int) \<le> queue_count \<lparr>queue_count = 1, player_count = 1\<rparr>
   \<and> (0::int) \<le> player_count \<lparr>queue_count = 1, player_count = 1\<rparr>"
proof -
  let ?ops = "[Parse queue_line_A ''7_main'' 7, Parse queue_line_B ''7_main'' 7,
       Parse join_line_A ''7_main'' 7]"
  have c: "stored_counts (after ?ops) ''7_main'' = Some \<lparr>queue_count = 1, player_count = 1\<rparr>"
    by (simp add: eval_simps line_facts)
  from counters_never_negative [of build0 "()" ?ops] obtain s' where
    r: "run build0 () ?ops new_parser = Inr s'"
    and n: "\<forall>server_key c. stored_counts s' server_key = Some c
            \<longrightarrow> 0 \<le> queue_count c \<and> 0 \<le> player_count c" by blast
  from r run_after [of ?ops] have "(Inr s' :: error + parser) = Inr (after ?ops)"
    by (simp only:)
  then have "s' = after ?ops" by (simp only: sum.inject)
  with n c show ?thesis by blast
qed

section \<open>Counters and the formulas\<close>

text \<open>
  C1: after every event that changes a set the stored counters are the formulas over
  the sets. The code does not do this after a post-join disconnect: from a new parser,
  after a queue join of A, a queue join of B and the registration of A (counters 1
  and 1), the close record of A is classified \<^verbatim>\<open>'d1'\<close> and puts A into
  \<open>players_disconnected_post\<close>, the stored counters stay at queue 1 and players 1,
  and the formulas over the sets give queue 1 and players 0.
\<close>

theorem post_join_disconnect_keeps_counts:
  "event_of (parse_lifecycle_event build0 () close_line_A ''7_main'' 7
       (after [Parse queue_line_A ''7_main'' 7, Parse queue_line_B ''7_main'' 7,
               Parse join_line_A ''7_main'' 7])) = Some ''d1''
   \<and> stored_counts (after [Parse queue_line_A ''7_main'' 7, Parse queue_line_B ''7_main'' 7,
               Parse join_line_A ''7_main'' 7, Parse close_line_A ''7_main'' 7]) ''7_main''
        = Some \<lparr>queue_count = 1, player_count = 1\<rparr>
   \<and> map_option spec_counts
        (player_states (after [Parse queue_line_A ''7_main'' 7, Parse queue_line_B ''7_main'' 7,
               Parse join_line_A ''7_main'' 7, Parse close_line_A ''7_main'' 7]) ''7_main'')
        = Some \<lparr>queue_count = 1, player_count = 0\<rparr>"
  by (simp add: eval_simps line_facts event_of_def spec_counts_def)


section \<open>Sets only grow\<close>

lemma run_parse_grows:
  assumes "Reset k \<notin> set ops" and "player_states s k = Some st"
  shows "\<exists>s' st'. run b n ops s = Inr s' \<and> player_states s' k = Some st' \<and> grows st st'"
using assms proof (induction ops arbitrary: s st)
  case Nil
  then show ?case by (simp add: grows_refl)
next
  case (Cons x ops)
  from Cons.prems have nr: "Reset k \<notin> set ops" by simp
  show ?case
  proof (cases x)
    case (Parse line k' g)
    from parse_frame [of b n line k' g s] obtain s1 ret ev st0 st1 r where
      p: "parse_lifecycle_event b n line k' g s = Inr (s1, ret, ev)"
      and ps0: "player_states (initialize_server_tracking k' s) k' = Some st0"
      and ps1: "player_states s1 = (player_states (initialize_server_tracking k' s))(k' \<mapsto> st1)"
      and g: "grows st0 st1" by blast
    have "\<exists>st2. player_states s1 k = Some st2 \<and> grows st st2"
    proof (cases "k' = k")
      case True
      with Cons.prems(2) ps0 have "st0 = st" by (simp add: init_player_states dom_def)
      with True ps1 g show ?thesis by simp
    next
      case False
      with Cons.prems(2) ps1 show ?thesis
        by (auto simp: init_player_states grows_refl)
    qed
    then obtain st2 where s2: "player_states s1 k = Some st2" and g2: "grows st st2" by blast
    from Cons.IH [OF nr s2] obtain s' st' where
      "run b n ops s1 = Inr s'" "player_states s' k = Some st'" "grows st2 st'" by blast
    with p Parse g2 show ?thesis by (auto intro: grows_trans)
  next
    case (GetLiveCounts k')
    from init_tracked [of k' s] obtain r where
      "server_counts (initialize_server_tracking k' s) k' = Some r" by blast
    from get_live_counts_ok [OF this] obtain s1 r1 where
      p: "get_live_counts k' s = Inr (s1, r1)"
      and ps1: "player_states s1 = player_states (initialize_server_tracking k' s)"
      by simp
    from ps1 Cons.prems(2) have s2: "player_states s1 k = Some st"
      by (auto simp: init_player_states)
    from Cons.IH [OF nr s2] p GetLiveCounts show ?thesis by simp
  next
    case (Reset k')
    with Cons.prems have "k' \<noteq> k" by auto
    with Cons.prems(2) have "player_states (reset_server_counts k' s) k = Some st"
      by (simp add: reset_server_counts_def Let_def)
    from Cons.IH [OF nr this] Reset show ?thesis by simp
  qed
qed

text \<open>
  C7: within one epoch of a key, that is over any list of calls with no reset of that
  key, membership is monotonic: a player id in \<open>players_queued\<close>, \<open>players_joined\<close>,
  \<open>players_disconnected_pre\<close> or \<open>players_disconnected_post\<close> of the key is still
  in that set after the calls, and every call returns.
\<close>

theorem membership_monotonic:
  assumes "Reset server_key \<notin> set ops" and "player_states s server_key = Some st"
  shows "\<exists>s' st'. run build now ops s = Inr s' \<and> player_states s' server_key = Some st'
     \<and> (P |\<in>| players_queued st \<longrightarrow> P |\<in>| players_queued st')
     \<and> (P |\<in>| players_joined st \<longrightarrow> P |\<in>| players_joined st')
     \<and> (P |\<in>| players_disconnected_pre st \<longrightarrow> P |\<in>| players_disconnected_pre st')
     \<and> (P |\<in>| players_disconnected_post st \<longrightarrow> P |\<in>| players_disconnected_post st')"
proof -
  from run_parse_grows [OF assms, of build now] obtain s' st' where
    "run build now ops s = Inr s'" "player_states s' server_key = Some st'" "grows st st'"
    by blast
  then show ?thesis by (auto simp: grows_def)
qed


theorem membership_monotonic_witness:
  "Reset ''7_main'' \<notin> set [Parse close_line_A ''7_main'' 7, GetLiveCounts ''7_main'',
                               Parse queue_line_B ''7_main'' 7, Reset ''7_other'']
   \<and> player_states (after [Parse join_line_A ''7_main'' 7]) ''7_main'' =
       Some \<lparr>players_queued = {||}, players_joined = {|''A''|},
             players_disconnected_pre = {||}, players_disconnected_post = {||}\<rparr>
   \<and> ''A'' |\<in>| players_joined \<lparr>players_queued = {||}, players_joined = {|''A''|},
             players_disconnected_pre = {||}, players_disconnected_post = {||}\<rparr>
   \<and> (\<exists>s' st'. run build0 () [Parse close_line_A ''7_main'' 7, GetLiveCounts ''7_main'',
                               Parse queue_line_B ''7_main'' 7, Reset ''7_other'']
                   (after [Parse join_line_A ''7_main'' 7]) = Inr s'
          \<and> player_states s' ''7_main'' = Some st' \<and> ''A'' |\<in>| players_joined st')"
proof -
  let ?ops = "[Parse close_line_A ''7_main'' 7, GetLiveCounts ''7_main'',
               Parse queue_line_B ''7_main'' 7, Reset ''7_other'']"
  let ?st = "\<lparr>players_queued = {||}, players_joined = {|''A''|},
             players_disconnected_pre = {||}, players_disconnected_post = {||}\<rparr>"
  have h1: "Reset ''7_main'' \<notin> set ?ops" by simp
  have h2: "player_states (after [Parse join_line_A ''7_main'' 7]) ''7_main'' = Some ?st"
    by (simp add: eval_simps line_facts)
  from membership_monotonic [OF h1 h2, of build0 "()" "''A''"] h1 h2
  show ?thesis by auto
qed


section \<open>Keys do not share state\<close>

lemma wf_new_parser: "wf new_parser"
  by (simp add: wf_def new_parser_def)

lemma wf_init: "wf s \<Longrightarrow> wf (initialize_server_tracking k s)"
  unfolding wf_def init_server_counts init_next_ref
  by (auto simp: dom_def split: if_splits) (metis less_SucI less_irrefl)+

lemma wf_parse:
  assumes "wf s" and "parse_lifecycle_event b n line k g s = Inr (s', ret, ev)"
  shows "wf s'"
proof -
  from parse_frame [of b n line k g s] assms(2) have
    "server_counts s' = server_counts (initialize_server_tracking k s)"
    "next_ref s' = next_ref (initialize_server_tracking k s)" by auto
  with wf_init [OF assms(1), of k] show ?thesis by (simp add: wf_def)
qed

lemma wf_get:
  assumes "wf s" and "get_live_counts k s = Inr (s', r')"
  shows "wf s'"
proof -
  from init_tracked [of k s] obtain r where
    "server_counts (initialize_server_tracking k s) k = Some r" by blast
  from get_live_counts_ok [OF this] assms(2) have
    "server_counts s' = server_counts (initialize_server_tracking k s)"
    "next_ref s' = Suc (next_ref (initialize_server_tracking k s))" by auto
  with wf_init [OF assms(1), of k] show ?thesis by (auto simp: wf_def less_SucI)
qed

lemma wf_reset: "wf s \<Longrightarrow> wf (reset_server_counts k s)"
  by (auto simp: wf_def reset_server_counts_def Let_def split: if_splits)

lemma wf_run: "wf s \<Longrightarrow> run b n ops s = Inr s' \<Longrightarrow> wf s'"
proof (induction ops arbitrary: s)
  case Nil
  then show ?case by simp
next
  case (Cons x ops)
  show ?case
  proof (cases x)
    case (Parse line k g)
    with Cons.prems(2) obtain s1 ret ev where
      p: "parse_lifecycle_event b n line k g s = Inr (s1, ret, ev)"
      and r: "run b n ops s1 = Inr s'" by (auto split: sum.splits)
    from Cons.IH [OF wf_parse [OF Cons.prems(1) p] r] show ?thesis .
  next
    case (GetLiveCounts k)
    with Cons.prems(2) obtain s1 r1 where
      p: "get_live_counts k s = Inr (s1, r1)"
      and r: "run b n ops s1 = Inr s'" by (auto split: sum.splits)
    from Cons.IH [OF wf_get [OF Cons.prems(1) p] r] show ?thesis .
  next
    case (Reset k)
    with Cons.prems(2) have "run b n ops (reset_server_counts k s) = Inr s'" by simp
    from Cons.IH [OF wf_reset [OF Cons.prems(1)] this] show ?thesis .
  qed
qed

lemma wf_after: "wf (after ops)"
  using wf_run [OF wf_new_parser run_after] .

lemma init_other:
  assumes "wf s" and "k \<noteq> k'"
  shows "tracked (initialize_server_tracking k s) k' = tracked s k'"
proof (cases "server_counts s k'")
  case None
  with assms(2) show ?thesis
    by (auto simp: tracked_def stored_counts_def init_player_states init_server_counts)
next
  case (Some r')
  with assms(1) have "r' < next_ref s" by (auto simp: wf_def)
  with Some assms(2) show ?thesis
    by (auto simp: tracked_def stored_counts_def init_player_states init_server_counts init_heap)
qed

text \<open>
  C10: for two distinct server keys \<open>k\<close> and \<open>k'\<close>, a call of
  \<^verbatim>\<open>parse_lifecycle_event\<close> or of \<^verbatim>\<open>reset_server_counts\<close> for \<open>k\<close> leaves the sets
  and the stored counters of \<open>k'\<close> as they are. \<open>wf\<close> holds of a new parser and is
  kept by every operation (\<open>wf_new_parser\<close>, \<open>wf_run\<close>): the counter dicts of two keys
  are distinct objects.
\<close>

theorem other_keys_untouched:
  assumes "wf s" and "k \<noteq> k'"
  shows "(\<exists>s' ret ev. parse_lifecycle_event build now line k guild_id s = Inr (s', ret, ev)
            \<and> tracked s' k' = tracked s k')
     \<and> tracked (reset_server_counts k s) k' = tracked s k'"
proof -
  from parse_frame [of build now line k guild_id s] obtain s' ret ev st st' r where
    p: "parse_lifecycle_event build now line k guild_id s = Inr (s', ret, ev)"
    and sc: "server_counts (initialize_server_tracking k s) k = Some r"
    and ps': "player_states s' = (player_states (initialize_server_tracking k s))(k \<mapsto> st')"
    and sc': "server_counts s' = server_counts (initialize_server_tracking k s)"
    and h: "heap s' = heap (initialize_server_tracking k s)
        \<or> heap s' = (heap (initialize_server_tracking k s))(r := spec_counts st')"
    by blast
  have "stored_counts s' k' = stored_counts (initialize_server_tracking k s) k'"
  proof (cases "server_counts (initialize_server_tracking k s) k'")
    case None
    with sc' show ?thesis by (simp add: stored_counts_def)
  next
    case (Some r')
    with sc wf_init [OF assms(1), of k] assms(2) have "r' \<noteq> r"
      by (auto simp: wf_def)
    with Some sc' h show ?thesis by (auto simp: stored_counts_def)
  qed
  with ps' assms(2) have "tracked s' k' = tracked (initialize_server_tracking k s) k'"
    by (simp add: tracked_def)
  with init_other [OF assms] p have
    "\<exists>s' ret ev. parse_lifecycle_event build now line k guild_id s = Inr (s', ret, ev)
            \<and> tracked s' k' = tracked s k'" by simp
  moreover from assms(2) have "tracked (reset_server_counts k s) k' = tracked s k'"
    by (simp add: tracked_def stored_counts_def reset_server_counts_def Let_def)
  ultimately show ?thesis by blast
qed


theorem other_keys_untouched_witness:
  "wf (after [Parse queue_line_A ''7_main'' 7]) \<and> ''7_other'' \<noteq> ''7_main''
   \<and> (\<exists>s' ret ev. parse_lifecycle_event build0 () queue_line_B ''7_other'' 7
                      (after [Parse queue_line_A ''7_main'' 7]) = Inr (s', ret, ev)
          \<and> tracked s' ''7_main'' =
              (Some \<lparr>players_queued = {|''A''|}, players_joined = {||},
                     players_disconnected_pre = {||}, players_disconnected_post = {||}\<rparr>,
               Some \<lparr>queue_count = 1, player_count = 0\<rparr>))
   \<and> tracked (reset_server_counts ''7_other'' (after [Parse queue_line_A ''7_main'' 7])) ''7_main'' =
              (Some \<lparr>players_queued = {|''A''|}, players_joined = {||},
                     players_disconnected_pre = {||}, players_disconnected_post = {||}\<rparr>,
               Some \<lparr>queue_count = 1, player_count = 0\<rparr>)"
proof -
  let ?s = "after [Parse queue_line_A ''7_main'' 7]"
  have h1: "wf ?s" by (rule wf_after)
  have h2: "''7_other'' \<noteq> ''7_main''" by simp
  have t: "tracked ?s ''7_main'' =
              (Some \<lparr>players_queued = {|''A''|}, players_joined = {||},
                     players_disconnected_pre = {||}, players_disconnected_post = {||}\<rparr>,
               Some \<lparr>queue_count = 1, player_count = 0\<rparr>)"
    by (simp add: tracked_def eval_simps line_facts)
  from other_keys_untouched [OF h1 h2, of build0 "()" queue_line_B 7] h1 h2 t
  show ?thesis by simp
qed


section \<open>Reading and resetting the counters\<close>

lemma parse_local:
  assumes "tracked (initialize_server_tracking k s) k = tracked (initialize_server_tracking k t) k"
  shows "\<exists>s1 t1 ret ev. parse_lifecycle_event b n line k g s = Inr (s1, ret, ev)
     \<and> parse_lifecycle_event b n line k g t = Inr (t1, ret, ev)
     \<and> tracked s1 k = tracked t1 k"
proof -
  from init_tracked [of k s] obtain st r where
    ps: "player_states (initialize_server_tracking k s) k = Some st"
    and sc: "server_counts (initialize_server_tracking k s) k = Some r" by blast
  from init_tracked [of k t] obtain st2 r2 where
    pt: "player_states (initialize_server_tracking k t) k = Some st2"
    and tc: "server_counts (initialize_server_tracking k t) k = Some r2" by blast
  from assms ps pt sc tc have eq: "st2 = st"
    "heap (initialize_server_tracking k t) r2 = heap (initialize_server_tracking k s) r"
    by (simp_all add: tracked_def stored_counts_def)
  from parse_uniform [of st k b n line g] obtain st' ret ev upd where
    p: "\<forall>s r. player_states (initialize_server_tracking k s) k = Some st
        \<longrightarrow> server_counts (initialize_server_tracking k s) k = Some r
        \<longrightarrow> parse_lifecycle_event b n line k g s =
              Inr ((initialize_server_tracking k s)
                \<lparr>player_states := (player_states (initialize_server_tracking k s))(k \<mapsto> st'),
                 heap := (if upd then (heap (initialize_server_tracking k s))(r := spec_counts st')
                          else heap (initialize_server_tracking k s))\<rparr>, ret, ev)"
    by blast
  let ?s1 = "(initialize_server_tracking k s)
                \<lparr>player_states := (player_states (initialize_server_tracking k s))(k \<mapsto> st'),
                 heap := (if upd then (heap (initialize_server_tracking k s))(r := spec_counts st')
                          else heap (initialize_server_tracking k s))\<rparr>"
  let ?t1 = "(initialize_server_tracking k t)
                \<lparr>player_states := (player_states (initialize_server_tracking k t))(k \<mapsto> st'),
                 heap := (if upd then (heap (initialize_server_tracking k t))(r2 := spec_counts st')
                          else heap (initialize_server_tracking k t))\<rparr>"
  from p ps sc have 1: "parse_lifecycle_event b n line k g s = Inr (?s1, ret, ev)" by blast
  from p pt tc eq(1) have 2: "parse_lifecycle_event b n line k g t = Inr (?t1, ret, ev)" by blast
  have "tracked ?s1 k = tracked ?t1 k"
    using sc tc eq(2) by (simp add: tracked_def stored_counts_def)
  with 1 2 show ?thesis by blast
qed

lemma init_unseen:
  assumes "k \<notin> dom (server_counts t)" and "k \<notin> dom (player_states t)"
  shows "tracked (initialize_server_tracking k t) k =
     (Some no_states, Some \<lparr>queue_count = 0, player_count = 0\<rparr>)"
  using assms
  by (simp add: tracked_def stored_counts_def init_player_states init_server_counts init_heap)

lemma reset_unseen:
  "k \<notin> dom (server_counts (reset_server_counts k s))"
  "k \<notin> dom (player_states (reset_server_counts k s))"
  by (auto simp: reset_server_counts_def Let_def)

lemma reset_noop:
  "k \<notin> dom (server_counts t) \<Longrightarrow> k \<notin> dom (player_states t) \<Longrightarrow> reset_server_counts k t = t"
  by (simp add: reset_server_counts_def)

lemma live_counts_unseen:
  assumes "k \<notin> dom (server_counts t)"
  shows "live_counts k t = Some \<lparr>queue_count = 0, player_count = 0\<rparr>"
proof -
  from assms have sc: "server_counts (initialize_server_tracking k t) k = Some (next_ref t)"
    by (simp add: init_server_counts)
  from live_counts_eq [OF sc] assms show ?thesis by (simp add: init_heap)
qed

lemma snapshot:
  assumes "wf s" and "get_live_counts k s = Inr (s1, r1)"
  shows "live_counts k (s1\<lparr>heap := (heap s1)(r1 := c)\<rparr>) = live_counts k s"
proof -
  let ?s0 = "initialize_server_tracking k s"
  from init_tracked [of k s] obtain st r where
    ps: "player_states ?s0 k = Some st" and sc: "server_counts ?s0 k = Some r" by blast
  from wf_init [OF assms(1), of k] sc have lt: "r < next_ref ?s0" by (auto simp: wf_def)
  from get_live_counts_ok [OF sc] assms(2) have
    s1: "s1 = ?s0\<lparr>heap := (heap ?s0)(next_ref ?s0 := heap ?s0 r), next_ref := Suc (next_ref ?s0)\<rparr>"
    and r1: "r1 = next_ref ?s0" by simp_all
  let ?m = "s1\<lparr>heap := (heap s1)(r1 := c)\<rparr>"
  have pm: "player_states ?m k = Some st" and cm: "server_counts ?m k = Some r"
    using ps sc s1 by simp_all
  have i: "initialize_server_tracking k ?m = ?m" using pm cm by (rule init_known)
  from cm have "server_counts (initialize_server_tracking k ?m) k = Some r" by (simp only: i)
  from live_counts_eq [OF this] have a: "live_counts k ?m = Some (heap ?m r)" by (simp only: i)
  have b: "heap ?m r = heap ?s0 r" using lt s1 r1 by simp
  from a b have "live_counts k ?m = Some (heap ?s0 r)" by (simp only:)
  with live_counts_eq [OF sc] show ?thesis by (simp only:)
qed

lemma get_reads_stored:
  assumes "get_live_counts k s = Inr (s', r)"
  shows "Some (heap s' r) = stored_counts (initialize_server_tracking k s) k"
proof -
  from init_tracked [of k s] obtain r0 where
    sc: "server_counts (initialize_server_tracking k s) k = Some r0" by blast
  from get_live_counts_ok [OF sc] assms sc show ?thesis
    by (auto simp: stored_counts_def)
qed

lemma stored_counts_init:
  "k \<in> dom (server_counts s) \<Longrightarrow> stored_counts (initialize_server_tracking k s) k = stored_counts s k"
  by (simp add: stored_counts_def init_server_counts init_heap)

lemma get_keeps_tracked:
  assumes "wf s" and "get_live_counts k s = Inr (s', r)"
  shows "tracked s' k = tracked (initialize_server_tracking k s) k"
proof -
  let ?s0 = "initialize_server_tracking k s"
  from init_tracked [of k s] obtain r0 where sc: "server_counts ?s0 k = Some r0" by blast
  from wf_init [OF assms(1), of k] sc have "r0 < next_ref ?s0" by (auto simp: wf_def)
  with get_live_counts_ok [OF sc] assms(2) sc show ?thesis
    by (auto simp: tracked_def stored_counts_def)
qed

text \<open>
  C5: \<^verbatim>\<open>get_live_counts\<close> raises for no key and no state. The dict it returns holds
  the counters that are stored for the key when it is called, whether or not they agree
  with the formulas, and the call leaves the sets and the stored counters of the key as
  \<^verbatim>\<open>initialize_server_tracking\<close> gives them. For a key never seen (as in \<open>t\<close>) it stores
  empty sets and zero counters and returns 0 and 0. What it returns is a copy: whatever
  the caller writes into the returned dict, the next read gives what this one gave
  (\<open>wf\<close> holds of every state the operations produce, see \<open>wf_run\<close>). After
  \<^verbatim>\<open>reset_server_counts\<close> for the key the read gives 0 and 0, and the next line for the
  key gives the same result, sets and stored counters as on a key never seen. A reset of
  a key that is not there changes nothing.
\<close>

theorem live_counts_and_reset:
  assumes "server_key \<notin> dom (server_counts t)" and "server_key \<notin> dom (player_states t)"
  shows "(\<exists>s' r. get_live_counts server_key s = Inr (s', r)
            \<and> Some (heap s' r) = stored_counts (initialize_server_tracking server_key s) server_key
            \<and> (server_key \<in> dom (server_counts s) \<longrightarrow> Some (heap s' r) = stored_counts s server_key)
            \<and> live_counts server_key s = Some (heap s' r)
            \<and> (wf s \<longrightarrow>
                 tracked s' server_key = tracked (initialize_server_tracking server_key s) server_key
                 \<and> (\<forall>c. live_counts server_key (s'\<lparr>heap := (heap s')(r := c)\<rparr>)
                                = live_counts server_key s)))
     \<and> (\<exists>t' r. get_live_counts server_key t = Inr (t', r)
            \<and> heap t' r = \<lparr>queue_count = 0, player_count = 0\<rparr>
            \<and> tracked t' server_key = (Some no_states, Some \<lparr>queue_count = 0, player_count = 0\<rparr>))
     \<and> live_counts server_key (reset_server_counts server_key s) =
          Some \<lparr>queue_count = 0, player_count = 0\<rparr>
     \<and> (\<exists>s1 t1 ret ev.
            parse_lifecycle_event build now line server_key guild_id
              (reset_server_counts server_key s) = Inr (s1, ret, ev)
            \<and> parse_lifecycle_event build now line server_key guild_id t = Inr (t1, ret, ev)
            \<and> tracked s1 server_key = tracked t1 server_key)
     \<and> reset_server_counts server_key t = t"
proof -
  from get_live_counts_total [of server_key s] obtain s' r where
    g: "get_live_counts server_key s = Inr (s', r)" by blast
  then have l: "live_counts server_key s = Some (heap s' r)" by (simp add: live_counts_def)
  note a = get_reads_stored [OF g]
  have b: "server_key \<in> dom (server_counts s) \<longrightarrow> Some (heap s' r) = stored_counts s server_key"
    using a stored_counts_init [of server_key s] by simp
  have c: "wf s \<longrightarrow>
                 tracked s' server_key = tracked (initialize_server_tracking server_key s) server_key
                 \<and> (\<forall>c. live_counts server_key (s'\<lparr>heap := (heap s')(r := c)\<rparr>)
                                = live_counts server_key s)"
    using get_keeps_tracked [OF _ g] snapshot [OF _ g] by blast
  from g a b l c have 1: "\<exists>s' r. get_live_counts server_key s = Inr (s', r)
            \<and> Some (heap s' r) = stored_counts (initialize_server_tracking server_key s) server_key
            \<and> (server_key \<in> dom (server_counts s) \<longrightarrow> Some (heap s' r) = stored_counts s server_key)
            \<and> live_counts server_key s = Some (heap s' r)
            \<and> (wf s \<longrightarrow>
                 tracked s' server_key = tracked (initialize_server_tracking server_key s) server_key
                 \<and> (\<forall>c. live_counts server_key (s'\<lparr>heap := (heap s')(r := c)\<rparr>)
                                = live_counts server_key s))"
    by blast
  from assms(1) have sc: "server_counts (initialize_server_tracking server_key t) server_key
      = Some (next_ref t)" by (simp add: init_server_counts)
  have 2: "\<exists>t' r. get_live_counts server_key t = Inr (t', r)
            \<and> heap t' r = \<lparr>queue_count = 0, player_count = 0\<rparr>
            \<and> tracked t' server_key = (Some no_states, Some \<lparr>queue_count = 0, player_count = 0\<rparr>)"
    using get_live_counts_ok [OF sc] assms init_unseen [OF assms]
    by (simp add: tracked_def stored_counts_def init_heap init_next_ref init_server_counts
        init_player_states)
  have 3: "live_counts server_key (reset_server_counts server_key s) =
          Some \<lparr>queue_count = 0, player_count = 0\<rparr>"
    using reset_unseen(1) by (rule live_counts_unseen)
  have "tracked (initialize_server_tracking server_key (reset_server_counts server_key s)) server_key
      = tracked (initialize_server_tracking server_key t) server_key"
    using init_unseen [OF reset_unseen, of server_key s] init_unseen [OF assms] by simp
  from parse_local [OF this, of build now line guild_id] have 4:
    "\<exists>s1 t1 ret ev.
            parse_lifecycle_event build now line server_key guild_id
              (reset_server_counts server_key s) = Inr (s1, ret, ev)
            \<and> parse_lifecycle_event build now line server_key guild_id t = Inr (t1, ret, ev)
            \<and> tracked s1 server_key = tracked t1 server_key" .
  from 1 2 3 4 reset_noop [OF assms] show ?thesis by blast
qed

theorem live_counts_and_reset_witness:
  "''7_main'' \<notin> dom (server_counts new_parser) \<and> ''7_main'' \<notin> dom (player_states new_parser)
   \<and> wf (after [Parse queue_line_A ''7_main'' 7, Parse queue_line_B ''7_main'' 7,
                 Parse join_line_A ''7_main'' 7, Parse close_line_A ''7_main'' 7])
   \<and> ''7_main'' \<in> dom (server_counts (after [Parse queue_line_A ''7_main'' 7,
                 Parse queue_line_B ''7_main'' 7, Parse join_line_A ''7_main'' 7,
                 Parse close_line_A ''7_main'' 7]))
   \<and> stored_counts (after [Parse queue_line_A ''7_main'' 7, Parse queue_line_B ''7_main'' 7,
                 Parse join_line_A ''7_main'' 7, Parse close_line_A ''7_main'' 7]) ''7_main''
        = Some \<lparr>queue_count = 1, player_count = 1\<rparr>
   \<and> (\<exists>s' r. get_live_counts ''7_main'' (after [Parse queue_line_A ''7_main'' 7,
                 Parse queue_line_B ''7_main'' 7, Parse join_line_A ''7_main'' 7,
                 Parse close_line_A ''7_main'' 7]) = Inr (s', r)
          \<and> heap s' r = \<lparr>queue_count = 1, player_count = 1\<rparr>
          \<and> stored_counts s' ''7_main'' = Some \<lparr>queue_count = 1, player_count = 1\<rparr>
          \<and> live_counts ''7_main'' (s'\<lparr>heap := (heap s')(r := \<lparr>queue_count = 5, player_count = 5\<rparr>)\<rparr>)
              = Some \<lparr>queue_count = 1, player_count = 1\<rparr>)
   \<and> live_counts ''7_main'' (reset_server_counts ''7_main''
          (after [Parse queue_line_A ''7_main'' 7, Parse queue_line_B ''7_main'' 7,
                 Parse join_line_A ''7_main'' 7, Parse close_line_A ''7_main'' 7]))
        = Some \<lparr>queue_count = 0, player_count = 0\<rparr>
   \<and> reset_server_counts ''7_main'' new_parser = new_parser"
proof -
  let ?s = "after [Parse queue_line_A ''7_main'' 7, Parse queue_line_B ''7_main'' 7,
                 Parse join_line_A ''7_main'' 7, Parse close_line_A ''7_main'' 7]"
  have h1: "''7_main'' \<notin> dom (server_counts new_parser)" by (simp add: new_parser_def)
  have h2: "''7_main'' \<notin> dom (player_states new_parser)" by (simp add: new_parser_def)
  have h3: "wf ?s" by (rule wf_after)
  have c: "stored_counts ?s ''7_main'' = Some \<lparr>queue_count = 1, player_count = 1\<rparr>"
    by (simp add: eval_simps line_facts)
  then have d: "''7_main'' \<in> dom (server_counts ?s)"
    by (auto simp: stored_counts_def)
  from d have i: "stored_counts (initialize_server_tracking ''7_main'' ?s) ''7_main''
      = stored_counts ?s ''7_main''" by (rule stored_counts_init)
  from live_counts_and_reset [OF h1 h2, of ?s build0 "()" queue_line_A 7] obtain s' r where
    g: "get_live_counts ''7_main'' ?s = Inr (s', r)"
    and a: "Some (heap s' r) = stored_counts ?s ''7_main''"
    and l: "live_counts ''7_main'' ?s = Some (heap s' r)"
    and t: "tracked s' ''7_main'' = tracked (initialize_server_tracking ''7_main'' ?s) ''7_main''"
    and m: "\<forall>c. live_counts ''7_main'' (s'\<lparr>heap := (heap s')(r := c)\<rparr>) = live_counts ''7_main'' ?s"
    and z: "live_counts ''7_main'' (reset_server_counts ''7_main'' ?s)
        = Some \<lparr>queue_count = 0, player_count = 0\<rparr>"
    and n: "reset_server_counts ''7_main'' new_parser = new_parser"
    using h3 d by blast
  from a c have v: "heap s' r = \<lparr>queue_count = 1, player_count = 1\<rparr>" by simp
  from t i c have st: "stored_counts s' ''7_main'' = Some \<lparr>queue_count = 1, player_count = 1\<rparr>"
    by (simp add: tracked_def)
  from m l v have "live_counts ''7_main'' (s'\<lparr>heap := (heap s')(r := \<lparr>queue_count = 5, player_count = 5\<rparr>)\<rparr>)
              = Some \<lparr>queue_count = 1, player_count = 1\<rparr>" by simp
  with g v st have "\<exists>s' r. get_live_counts ''7_main'' ?s = Inr (s', r)
          \<and> heap s' r = \<lparr>queue_count = 1, player_count = 1\<rparr>
          \<and> stored_counts s' ''7_main'' = Some \<lparr>queue_count = 1, player_count = 1\<rparr>
          \<and> live_counts ''7_main'' (s'\<lparr>heap := (heap s')(r := \<lparr>queue_count = 5, player_count = 5\<rparr>)\<rparr>)
              = Some \<lparr>queue_count = 1, player_count = 1\<rparr>" by blast
  with h1 h2 h3 d c z n show ?thesis by (simp only: simp_thms)
qed

section \<open>Disconnects\<close>

lemma add_forms:
  "players_disconnected_pre_update (finsert P) st =
     st\<lparr>players_disconnected_pre := finsert P (players_disconnected_pre st)\<rparr>"
  "players_disconnected_post_update (finsert P) st =
     st\<lparr>players_disconnected_post := finsert P (players_disconnected_post st)\<rparr>"
  by (cases st; simp)+

lemma group1_Some: "group m 1 = Some P \<Longrightarrow> group1 m = P"
  by (simp add: group1_def)

text \<open>
  C3: a line that fails the first three patterns and matches the second disconnect
  pattern with identifier \<open>P\<close> is a pre-join disconnect, \<^verbatim>\<open>'d2'\<close>, exactly when \<open>P\<close> is
  in \<open>players_queued\<close> and not in \<open>players_joined\<close>: then \<open>P\<close> is added to
  \<open>players_disconnected_pre\<close> and the counters are recomputed. Otherwise there is no
  event and the state is the one \<^verbatim>\<open>initialize_server_tracking\<close> gives, which is the
  state itself for a tracked key. \<open>st\<close> names the sets of the key when the line arrives.
\<close>

theorem pre_join_fallback:
  assumes "search queue_join line = None" and "search player_joined line = None"
    and "search disconnect_post_join line = None"
    and "search disconnect_pre_join line = Some m" and "group m 1 = Some P"
    and "player_states (initialize_server_tracking server_key s) server_key = Some st"
  shows "(P |\<in>| players_queued st \<and> P |\<notin>| players_joined st \<longrightarrow>
           (\<exists>s'. parse_lifecycle_event build now line server_key guild_id s =
                    Inr (s', None, Some ''d2'')
              \<and> player_states s' server_key =
                  Some (st\<lparr>players_disconnected_pre := finsert P (players_disconnected_pre st)\<rparr>)
              \<and> stored_counts s' server_key =
                  Some (spec_counts
                    (st\<lparr>players_disconnected_pre := finsert P (players_disconnected_pre st)\<rparr>))))
     \<and> (\<not> (P |\<in>| players_queued st \<and> P |\<notin>| players_joined st) \<longrightarrow>
           parse_lifecycle_event build now line server_key guild_id s =
             Inr (initialize_server_tracking server_key s, None, None)
           \<and> (server_key \<in> dom (server_counts s) \<and> server_key \<in> dom (player_states s)
                \<longrightarrow> initialize_server_tracking server_key s = s))"
proof -
  from init_tracked [of server_key s] obtain r where
    sc: "server_counts (initialize_server_tracking server_key s) server_key = Some r" by auto
  note P = group1_Some [OF assms(5)]
  have a: "P |\<in>| players_queued st \<and> P |\<notin>| players_joined st \<longrightarrow>
           (\<exists>s'. parse_lifecycle_event build now line server_key guild_id s =
                    Inr (s', None, Some ''d2'')
              \<and> player_states s' server_key =
                  Some (st\<lparr>players_disconnected_pre := finsert P (players_disconnected_pre st)\<rparr>)
              \<and> stored_counts s' server_key =
                  Some (spec_counts
                    (st\<lparr>players_disconnected_pre := finsert P (players_disconnected_pre st)\<rparr>)))"
  proof
    assume "P |\<in>| players_queued st \<and> P |\<notin>| players_joined st"
    then have "group1 m |\<in>| players_queued st" "group1 m |\<notin>| players_joined st"
      using P by simp_all
    from parse_alt_d2 [OF assms(1-4) assms(6) sc this, of build now guild_id] sc P
    show "\<exists>s'. parse_lifecycle_event build now line server_key guild_id s =
                    Inr (s', None, Some ''d2'')
              \<and> player_states s' server_key =
                  Some (st\<lparr>players_disconnected_pre := finsert P (players_disconnected_pre st)\<rparr>)
              \<and> stored_counts s' server_key =
                  Some (spec_counts
                    (st\<lparr>players_disconnected_pre := finsert P (players_disconnected_pre st)\<rparr>))"
      by (simp add: stored_counts_def add_forms)
  qed
  have b: "\<not> (P |\<in>| players_queued st \<and> P |\<notin>| players_joined st) \<longrightarrow>
           parse_lifecycle_event build now line server_key guild_id s =
             Inr (initialize_server_tracking server_key s, None, None)"
    using parse_alt_none [OF assms(1-4) assms(6), of build now guild_id] P by simp
  have c: "server_key \<in> dom (server_counts s) \<and> server_key \<in> dom (player_states s)
                \<longrightarrow> initialize_server_tracking server_key s = s"
    by (auto intro: init_known)
  from a b c show ?thesis by blast
qed

theorem pre_join_fallback_witness:
  "search queue_join close_ps5_line_B = None \<and> search player_joined close_ps5_line_B = None
   \<and> search disconnect_post_join close_ps5_line_B = None
   \<and> search disconnect_pre_join close_ps5_line_B = Some [(1, ''B'')]
   \<and> group [(1, ''B'')] 1 = Some ''B''
   \<and> player_states (initialize_server_tracking ''7_main'' (after [Parse queue_line_B ''7_main'' 7]))
        ''7_main'' =
       Some \<lparr>players_queued = {|''B''|}, players_joined = {||},
             players_disconnected_pre = {||}, players_disconnected_post = {||}\<rparr>
   \<and> (\<exists>s'. parse_lifecycle_event build0 () close_ps5_line_B ''7_main'' 7
               (after [Parse queue_line_B ''7_main'' 7]) = Inr (s', None, Some ''d2'')
          \<and> player_states s' ''7_main'' =
              Some \<lparr>players_queued = {|''B''|}, players_joined = {||},
                    players_disconnected_pre = {|''B''|}, players_disconnected_post = {||}\<rparr>
          \<and> stored_counts s' ''7_main'' = Some \<lparr>queue_count = 0, player_count = 0\<rparr>)
   \<and> player_states (initialize_server_tracking ''7_main'' new_parser) ''7_main'' = Some no_states
   \<and> parse_lifecycle_event build0 () close_ps5_line_B ''7_main'' 7 new_parser =
        Inr (initialize_server_tracking ''7_main'' new_parser, None, None)"
proof -
  let ?st = "\<lparr>players_queued = {|''B''|}, players_joined = {||},
             players_disconnected_pre = {||}, players_disconnected_post = {||}\<rparr>"
  note n = close_ps5_line_B_1 close_ps5_line_B_2 close_ps5_line_B_3 close_ps5_line_B_4
  have g: "group [(1, ''B'')] 1 = Some ''B''" by (simp add: group_def)
  have st: "player_states (initialize_server_tracking ''7_main''
              (after [Parse queue_line_B ''7_main'' 7])) ''7_main'' = Some ?st"
    by (simp add: eval_simps line_facts)
  have st0: "player_states (initialize_server_tracking ''7_main'' new_parser) ''7_main''
      = Some no_states"
    by (simp add: eval_simps no_states_def)
  have 1: "\<exists>s'. parse_lifecycle_event build0 () close_ps5_line_B ''7_main'' 7
               (after [Parse queue_line_B ''7_main'' 7]) = Inr (s', None, Some ''d2'')
          \<and> player_states s' ''7_main'' =
              Some \<lparr>players_queued = {|''B''|}, players_joined = {||},
                    players_disconnected_pre = {|''B''|}, players_disconnected_post = {||}\<rparr>
          \<and> stored_counts s' ''7_main'' = Some \<lparr>queue_count = 0, player_count = 0\<rparr>"
    using pre_join_fallback [OF n g st, of build0 "()" 7]
    by (simp add: spec_counts_def fcard_finsert_if)
  have 2: "parse_lifecycle_event build0 () close_ps5_line_B ''7_main'' 7 new_parser =
        Inr (initialize_server_tracking ''7_main'' new_parser, None, None)"
    using pre_join_fallback [OF n g st0, of build0 "()" 7]
    by (simp add: no_states_def)
  from n g st st0 1 2 show ?thesis by (simp only: simp_thms)
qed

text \<open>
  C2, amended: a line that matches neither the queue pattern nor the registration
  pattern and matches the first disconnect pattern with identifier \<open>P\<close> is
  classified by the state. If \<open>P\<close> is in \<open>players_joined\<close> it is a post-join
  disconnect, \<^verbatim>\<open>'d1'\<close>, and \<open>P\<close> is added to \<open>players_disconnected_post\<close>; else if \<open>P\<close>
  is in \<open>players_queued\<close> it is a pre-join disconnect, \<^verbatim>\<open>'d2'\<close>, and \<open>P\<close> is added to
  \<open>players_disconnected_pre\<close>; else there is no event and no set changes.
\<close>

theorem eos_disconnect_by_state:
  assumes "search queue_join line = None" and "search player_joined line = None"
    and "search disconnect_post_join line = Some m" and "group m 1 = Some P"
    and "player_states (initialize_server_tracking server_key s) server_key = Some st"
  shows "(P |\<in>| players_joined st \<longrightarrow>
           (\<exists>s'. parse_lifecycle_event build now line server_key guild_id s =
                    Inr (s', Some (create_leave_embed build now P None), Some ''d1'')
              \<and> player_states s' server_key =
                  Some (st\<lparr>players_disconnected_post := finsert P (players_disconnected_post st)\<rparr>)))
     \<and> (P |\<notin>| players_joined st \<and> P |\<in>| players_queued st \<longrightarrow>
           (\<exists>s'. parse_lifecycle_event build now line server_key guild_id s =
                    Inr (s', None, Some ''d2'')
              \<and> player_states s' server_key =
                  Some (st\<lparr>players_disconnected_pre := finsert P (players_disconnected_pre st)\<rparr>)))
     \<and> (P |\<notin>| players_joined st \<and> P |\<notin>| players_queued st \<longrightarrow>
           (\<exists>s'. parse_lifecycle_event build now line server_key guild_id s =
                    Inr (s', None, None)
              \<and> player_states s' = player_states (initialize_server_tracking server_key s)))"
proof -
  from init_tracked [of server_key s] obtain r where
    sc: "server_counts (initialize_server_tracking server_key s) server_key = Some r" by auto
  note P = group1_Some [OF assms(4)]
  have a: "P |\<in>| players_joined st \<longrightarrow>
           (\<exists>s'. parse_lifecycle_event build now line server_key guild_id s =
                    Inr (s', Some (create_leave_embed build now P None), Some ''d1'')
              \<and> player_states s' server_key =
                  Some (st\<lparr>players_disconnected_post := finsert P (players_disconnected_post st)\<rparr>))"
    using parse_d1 [OF assms(1-3) assms(5), of build now guild_id] P
    by (simp add: add_forms)
  have b: "P |\<notin>| players_joined st \<and> P |\<in>| players_queued st \<longrightarrow>
           (\<exists>s'. parse_lifecycle_event build now line server_key guild_id s =
                    Inr (s', None, Some ''d2'')
              \<and> player_states s' server_key =
                  Some (st\<lparr>players_disconnected_pre := finsert P (players_disconnected_pre st)\<rparr>))"
    using parse_d2 [OF assms(1-3) assms(5) sc, of build now guild_id] P
    by (simp add: add_forms)
  have c: "P |\<notin>| players_joined st \<and> P |\<notin>| players_queued st \<longrightarrow>
           (\<exists>s'. parse_lifecycle_event build now line server_key guild_id s =
                    Inr (s', None, None)
              \<and> player_states s' = player_states (initialize_server_tracking server_key s))"
    using parse_d_unknown [OF assms(1-3) assms(5) sc, of build now guild_id] P
    by simp
  from a b c show ?thesis by blast
qed


theorem eos_disconnect_by_state_witness:
  "search queue_join close_line_A = None \<and> search player_joined close_line_A = None
   \<and> search disconnect_post_join close_line_A = Some [(1, ''A'')]
   \<and> group [(1, ''A'')] 1 = Some ''A''
   \<and> player_states (initialize_server_tracking ''7_main''
         (after [Parse queue_line_A ''7_main'' 7, Parse join_line_A ''7_main'' 7])) ''7_main'' =
       Some \<lparr>players_queued = {|''A''|}, players_joined = {|''A''|},
             players_disconnected_pre = {||}, players_disconnected_post = {||}\<rparr>
   \<and> (\<exists>s'. parse_lifecycle_event build0 () close_line_A ''7_main'' 7
               (after [Parse queue_line_A ''7_main'' 7, Parse join_line_A ''7_main'' 7]) =
               Inr (s', Some (create_leave_embed build0 () ''A'' None), Some ''d1'')
          \<and> player_states s' ''7_main'' =
              Some \<lparr>players_queued = {|''A''|}, players_joined = {|''A''|},
                    players_disconnected_pre = {||}, players_disconnected_post = {|''A''|}\<rparr>)
   \<and> player_states (initialize_server_tracking ''7_main''
         (after [Parse queue_line_A ''7_main'' 7])) ''7_main'' =
       Some \<lparr>players_queued = {|''A''|}, players_joined = {||},
             players_disconnected_pre = {||}, players_disconnected_post = {||}\<rparr>
   \<and> (\<exists>s'. parse_lifecycle_event build0 () close_line_A ''7_main'' 7
               (after [Parse queue_line_A ''7_main'' 7]) = Inr (s', None, Some ''d2'')
          \<and> player_states s' ''7_main'' =
              Some \<lparr>players_queued = {|''A''|}, players_joined = {||},
                    players_disconnected_pre = {|''A''|}, players_disconnected_post = {||}\<rparr>)
   \<and> player_states (initialize_server_tracking ''7_main'' new_parser) ''7_main'' = Some no_states
   \<and> (\<exists>s'. parse_lifecycle_event build0 () close_line_A ''7_main'' 7 new_parser =
               Inr (s', None, None)
          \<and> player_states s' = player_states (initialize_server_tracking ''7_main'' new_parser))"
proof -
  note n = close_line_A_1 close_line_A_2 close_line_A_3
  have g: "group [(1, ''A'')] 1 = Some ''A''" by (simp add: group_def)
  have st1: "player_states (initialize_server_tracking ''7_main''
         (after [Parse queue_line_A ''7_main'' 7, Parse join_line_A ''7_main'' 7])) ''7_main'' =
       Some \<lparr>players_queued = {|''A''|}, players_joined = {|''A''|},
             players_disconnected_pre = {||}, players_disconnected_post = {||}\<rparr>"
    by (simp add: eval_simps line_facts)
  have st2: "player_states (initialize_server_tracking ''7_main''
         (after [Parse queue_line_A ''7_main'' 7])) ''7_main'' =
       Some \<lparr>players_queued = {|''A''|}, players_joined = {||},
             players_disconnected_pre = {||}, players_disconnected_post = {||}\<rparr>"
    by (simp add: eval_simps line_facts)
  have st0: "player_states (initialize_server_tracking ''7_main'' new_parser) ''7_main''
      = Some no_states"
    by (simp add: eval_simps no_states_def)
  have 1: "\<exists>s'. parse_lifecycle_event build0 () close_line_A ''7_main'' 7
               (after [Parse queue_line_A ''7_main'' 7, Parse join_line_A ''7_main'' 7]) =
               Inr (s', Some (create_leave_embed build0 () ''A'' None), Some ''d1'')
          \<and> player_states s' ''7_main'' =
              Some \<lparr>players_queued = {|''A''|}, players_joined = {|''A''|},
                    players_disconnected_pre = {||}, players_disconnected_post = {|''A''|}\<rparr>"
    using eos_disconnect_by_state [OF n g st1, of build0 "()" 7] by simp
  have 2: "\<exists>s'. parse_lifecycle_event build0 () close_line_A ''7_main'' 7
               (after [Parse queue_line_A ''7_main'' 7]) = Inr (s', None, Some ''d2'')
          \<and> player_states s' ''7_main'' =
              Some \<lparr>players_queued = {|''A''|}, players_joined = {||},
                    players_disconnected_pre = {|''A''|}, players_disconnected_post = {||}\<rparr>"
    using eos_disconnect_by_state [OF n g st2, of build0 "()" 7] by simp
  have 3: "\<exists>s'. parse_lifecycle_event build0 () close_line_A ''7_main'' 7 new_parser =
               Inr (s', None, None)
          \<and> player_states s' = player_states (initialize_server_tracking ''7_main'' new_parser)"
    using eos_disconnect_by_state [OF n g st0, of build0 "()" 7] by (simp add: no_states_def)
  from n g st1 st2 st0 1 2 3 show ?thesis by (simp only: simp_thms)
qed

text \<open>
  Stated for every line that matches the first disconnect pattern, the property fails
  on a line that the registration pattern matches too: the \<^verbatim>\<open>elif\<close> chain takes the
  registration branch. With A in \<open>players_joined\<close>, the line is classified \<^verbatim>\<open>'j2'\<close>
  and \<open>players_disconnected_post\<close> stays empty.
\<close>

theorem eos_disconnect_counterexample:
  "search disconnect_post_join join_close_line_A = Some [(1, ''A'')]
   \<and> group [(1, ''A'')] 1 = Some ''A''
   \<and> map_option players_joined (player_states (after [Parse join_line_A ''7_main'' 7]) ''7_main'')
       = Some {|''A''|}
   \<and> event_of (parse_lifecycle_event build0 () join_close_line_A ''7_main'' 7
                 (after [Parse join_line_A ''7_main'' 7])) = Some ''j2''
   \<and> map_option players_disconnected_post
        (player_states (after [Parse join_line_A ''7_main'' 7,
                               Parse join_close_line_A ''7_main'' 7]) ''7_main'') = Some {||}"
  by (simp add: eval_simps line_facts event_of_def)


section \<open>Notifications returned\<close>

lemma create_join_embed_kind:
  "\<exists>d. event_type d = ''player_join'' \<and> player_id d = pid \<and> player_name d = name_or pname pid
      \<and> timestamp d = now
      \<and> create_join_embed build now pid pname =
          \<lparr>embed = fst (build ''player_join'' d), file_attachment = snd (build ''player_join'' d)\<rparr>"
  unfolding create_join_embed_def Let_def
  by (rule exI [of _ "\<lparr>event_type = ''player_join'', player_name = name_or pname pid,
        player_id = pid, timestamp = now,
        messages =
          [([0x1F3AE], '' '' @ name_or pname pid @ '' joined the server!''),
           ([0x1F31F], '' Welcome '' @ name_or pname pid @ '' to the battlefield!''),
           ([0x2694, 0xFE0F], '' '' @ name_or pname pid @ '' has entered the game!''),
           ([0x1F3AF], '' '' @ name_or pname pid @ '' is ready for action!'')]\<rparr>"])
    (simp split: prod.split)

lemma create_leave_embed_kind:
  "\<exists>d. event_type d = ''player_leave'' \<and> player_id d = pid \<and> player_name d = name_or pname pid
      \<and> timestamp d = now
      \<and> create_leave_embed build now pid pname =
          \<lparr>embed = fst (build ''player_leave'' d), file_attachment = snd (build ''player_leave'' d)\<rparr>"
  unfolding create_leave_embed_def Let_def
  by (rule exI [of _ "\<lparr>event_type = ''player_leave'', player_name = name_or pname pid,
        player_id = pid, timestamp = now,
        messages =
          [([0x1F44B], '' '' @ name_or pname pid @ '' left the server''),
           ([0x1F6AA], '' '' @ name_or pname pid @ '' disconnected from the battlefield''),
           ([0x23F0], '' '' @ name_or pname pid @ '' has ended their session''),
           ([0x1F51A], '' '' @ name_or pname pid @ '' signed off'')]\<rparr>"])
    (simp split: prod.split)

text \<open>
  C4, amended: what \<^verbatim>\<open>parse_lifecycle_event\<close> returns is fixed by the line and by the
  sets \<open>st\<close> of the key when the line arrives. A line that the queue pattern does not
  match and the registration pattern matches is classified \<^verbatim>\<open>'j2'\<close> and returns the
  join embed in every state, also when the player is already in \<open>players_joined\<close>. A
  line that reaches the first disconnect pattern with an identifier in \<open>players_joined\<close>
  is classified \<^verbatim>\<open>'d1'\<close> and returns the leave embed, also when the player is already
  in \<open>players_disconnected_post\<close>. Every other line returns \<^verbatim>\<open>None\<close>: a queue join, a
  pre-join disconnect, a disconnect of an unknown player, a line that is no event. So a
  dict is returned exactly when the event type is \<^verbatim>\<open>'j2'\<close> or \<^verbatim>\<open>'d1'\<close>. The join embed
  is what the builder makes of kind \<^verbatim>\<open>'player_join'\<close>, the leave embed of kind
  \<^verbatim>\<open>'player_leave'\<close> (\<open>create_join_embed_kind\<close>, \<open>create_leave_embed_kind\<close>).
\<close>

theorem notification_only_on_join_and_leave:
  assumes "player_states (initialize_server_tracking server_key s) server_key = Some st"
  shows "\<exists>s' ret ev. parse_lifecycle_event build now line server_key guild_id s = Inr (s', ret, ev)
     \<and> (ret \<noteq> None \<longleftrightarrow> ev = Some ''j2'' \<or> ev = Some ''d1'')
     \<and> (search queue_join line \<noteq> None \<longrightarrow> ev = Some ''jq'' \<and> ret = None)
     \<and> (\<forall>m. search queue_join line = None \<and> search player_joined line = Some m \<longrightarrow>
            ev = Some ''j2'' \<and> ret = Some (create_join_embed build now (group1 m) None))
     \<and> (\<forall>m. search queue_join line = None \<and> search player_joined line = None
            \<and> search disconnect_post_join line = Some m \<longrightarrow>
            (if group1 m |\<in>| players_joined st
             then ev = Some ''d1'' \<and> ret = Some (create_leave_embed build now (group1 m) None)
             else ret = None
                \<and> ev = (if group1 m |\<in>| players_queued st then Some ''d2'' else None)))
     \<and> (\<forall>m. search queue_join line = None \<and> search player_joined line = None
            \<and> search disconnect_post_join line = None
            \<and> search disconnect_pre_join line = Some m \<longrightarrow>
            ret = None
            \<and> ev = (if group1 m |\<in>| players_queued st \<and> group1 m |\<notin>| players_joined st
                    then Some ''d2'' else None))
     \<and> (search queue_join line = None \<and> search player_joined line = None
            \<and> search disconnect_post_join line = None
            \<and> search disconnect_pre_join line = None \<longrightarrow> ret = None \<and> ev = None)"
proof -
  note ps = assms
  from init_tracked [of server_key s] obtain r where
    sc: "server_counts (initialize_server_tracking server_key s) server_key = Some r"
    by blast
  show ?thesis
  proof (cases "search queue_join line")
    case (Some m)
    from parse_jq [OF Some ps sc, of build now guild_id] Some show ?thesis by auto
  next
    case n1: None
    show ?thesis
    proof (cases "search player_joined line")
      case (Some m)
      from parse_j2 [OF n1 Some ps sc, of build now guild_id] n1 Some show ?thesis by simp
    next
      case n2: None
      show ?thesis
      proof (cases "search disconnect_post_join line")
        case (Some m)
        consider "group1 m |\<in>| players_joined st"
          | "group1 m |\<notin>| players_joined st" "group1 m |\<in>| players_queued st"
          | "group1 m |\<notin>| players_joined st" "group1 m |\<notin>| players_queued st"
          by blast
        then show ?thesis
        proof cases
          case 1
          from parse_d1 [OF n1 n2 Some ps 1, of build now guild_id] n1 n2 Some 1
          show ?thesis by simp
        next
          case 2
          from parse_d2 [OF n1 n2 Some ps sc 2, of build now guild_id] n1 n2 Some 2
          show ?thesis by simp
        next
          case 3
          from parse_d_unknown [OF n1 n2 Some ps sc 3, of build now guild_id] n1 n2 Some 3
          show ?thesis by simp
        qed
      next
        case n3: None
        show ?thesis
        proof (cases "search disconnect_pre_join line")
          case (Some m)
          show ?thesis
          proof (cases "group1 m |\<in>| players_queued st \<and> group1 m |\<notin>| players_joined st")
            case True
            then have t: "group1 m |\<in>| players_queued st" "group1 m |\<notin>| players_joined st"
              by simp_all
            from parse_alt_d2 [OF n1 n2 n3 Some ps sc t, of build now guild_id] n1 n2 n3 Some t
            show ?thesis by simp
          next
            case False
            from parse_alt_none [OF n1 n2 n3 Some ps False, of build now guild_id]
              n1 n2 n3 Some False
            show ?thesis by auto
          qed
        next
          case None
          from parse_no_match [OF n1 n2 n3 None, of build now server_key guild_id s]
            n1 n2 n3 None
          show ?thesis by simp
        qed
      qed
    qed
  qed
qed

theorem notification_only_on_join_and_leave_witness:
  "player_states (initialize_server_tracking ''7_main'' new_parser) ''7_main'' = Some no_states
   \<and> search queue_join join_line_A = None \<and> search player_joined join_line_A = Some [(1, ''A'')]
   \<and> (\<exists>s'. parse_lifecycle_event build0 () join_line_A ''7_main'' 7 new_parser =
          Inr (s', Some \<lparr>embed = ''player_join'', file_attachment = ''A''\<rparr>, Some ''j2''))
   \<and> player_states (initialize_server_tracking ''7_main'' (after [Parse join_line_A ''7_main'' 7]))
        ''7_main'' =
       Some \<lparr>players_queued = {||}, players_joined = {|''A''|},
             players_disconnected_pre = {||}, players_disconnected_post = {||}\<rparr>
   \<and> (\<exists>s'. parse_lifecycle_event build0 () join_line_A ''7_main'' 7
               (after [Parse join_line_A ''7_main'' 7]) =
          Inr (s', Some \<lparr>embed = ''player_join'', file_attachment = ''A''\<rparr>, Some ''j2''))
   \<and> search queue_join close_line_A = None \<and> search player_joined close_line_A = None
   \<and> search disconnect_post_join close_line_A = Some [(1, ''A'')]
   \<and> player_states (initialize_server_tracking ''7_main''
         (after [Parse join_line_A ''7_main'' 7, Parse close_line_A ''7_main'' 7])) ''7_main'' =
       Some \<lparr>players_queued = {||}, players_joined = {|''A''|},
             players_disconnected_pre = {||}, players_disconnected_post = {|''A''|}\<rparr>
   \<and> (\<exists>s'. parse_lifecycle_event build0 () close_line_A ''7_main'' 7
               (after [Parse join_line_A ''7_main'' 7, Parse close_line_A ''7_main'' 7]) =
          Inr (s', Some \<lparr>embed = ''player_leave'', file_attachment = ''A''\<rparr>, Some ''d1''))
   \<and> search queue_join queue_line_A \<noteq> None
   \<and> (\<exists>s'. parse_lifecycle_event build0 () queue_line_A ''7_main'' 7 new_parser =
          Inr (s', None, Some ''jq''))
   \<and> player_states (initialize_server_tracking ''7_main'' (after [Parse queue_line_A ''7_main'' 7]))
        ''7_main'' =
       Some \<lparr>players_queued = {|''A''|}, players_joined = {||},
             players_disconnected_pre = {||}, players_disconnected_post = {||}\<rparr>
   \<and> (\<exists>s'. parse_lifecycle_event build0 () close_line_A ''7_main'' 7
               (after [Parse queue_line_A ''7_main'' 7]) = Inr (s', None, Some ''d2''))"
proof -
  have st0: "player_states (initialize_server_tracking ''7_main'' new_parser) ''7_main''
      = Some no_states"
    by (simp add: eval_simps no_states_def)
  have st1: "player_states (initialize_server_tracking ''7_main''
        (after [Parse join_line_A ''7_main'' 7])) ''7_main'' =
       Some \<lparr>players_queued = {||}, players_joined = {|''A''|},
             players_disconnected_pre = {||}, players_disconnected_post = {||}\<rparr>"
    by (simp add: eval_simps line_facts)
  have st2: "player_states (initialize_server_tracking ''7_main''
         (after [Parse join_line_A ''7_main'' 7, Parse close_line_A ''7_main'' 7])) ''7_main'' =
       Some \<lparr>players_queued = {||}, players_joined = {|''A''|},
             players_disconnected_pre = {||}, players_disconnected_post = {|''A''|}\<rparr>"
    by (simp add: eval_simps line_facts)
  have st3: "player_states (initialize_server_tracking ''7_main''
        (after [Parse queue_line_A ''7_main'' 7])) ''7_main'' =
       Some \<lparr>players_queued = {|''A''|}, players_joined = {||},
             players_disconnected_pre = {||}, players_disconnected_post = {||}\<rparr>"
    by (simp add: eval_simps line_facts)
  have j: "create_join_embed build0 () (group1 [(1, ''A'')]) None =
      \<lparr>embed = ''player_join'', file_attachment = ''A''\<rparr>"
    by (simp add: create_join_embed_def build0_def name_or_def group1_def group_def)
  have l: "create_leave_embed build0 () (group1 [(1, ''A'')]) None =
      \<lparr>embed = ''player_leave'', file_attachment = ''A''\<rparr>"
    by (simp add: create_leave_embed_def build0_def name_or_def group1_def group_def)
  have g: "group1 [(1, ''A'')] = ''A''" by (simp add: group1_def group_def)
  have q: "search queue_join queue_line_A \<noteq> None" by (simp add: queue_line_A_1)
  have a: "\<exists>s'. parse_lifecycle_event build0 () join_line_A ''7_main'' 7 new_parser =
          Inr (s', Some \<lparr>embed = ''player_join'', file_attachment = ''A''\<rparr>, Some ''j2'')"
    using notification_only_on_join_and_leave [OF st0, of build0 "()" join_line_A 7]
      join_line_A_1 join_line_A_2 j by auto
  have b: "\<exists>s'. parse_lifecycle_event build0 () join_line_A ''7_main'' 7
               (after [Parse join_line_A ''7_main'' 7]) =
          Inr (s', Some \<lparr>embed = ''player_join'', file_attachment = ''A''\<rparr>, Some ''j2'')"
    using notification_only_on_join_and_leave [OF st1, of build0 "()" join_line_A 7]
      join_line_A_1 join_line_A_2 j by auto
  have c: "\<exists>s'. parse_lifecycle_event build0 () close_line_A ''7_main'' 7
               (after [Parse join_line_A ''7_main'' 7, Parse close_line_A ''7_main'' 7]) =
          Inr (s', Some \<lparr>embed = ''player_leave'', file_attachment = ''A''\<rparr>, Some ''d1'')"
    using notification_only_on_join_and_leave [OF st2, of build0 "()" close_line_A 7]
      close_line_A_1 close_line_A_2 close_line_A_3 l g by auto
  have d: "\<exists>s'. parse_lifecycle_event build0 () queue_line_A ''7_main'' 7 new_parser =
          Inr (s', None, Some ''jq'')"
    using notification_only_on_join_and_leave [OF st0, of build0 "()" queue_line_A 7] q by auto
  have e: "\<exists>s'. parse_lifecycle_event build0 () close_line_A ''7_main'' 7
               (after [Parse queue_line_A ''7_main'' 7]) = Inr (s', None, Some ''d2'')"
    using notification_only_on_join_and_leave [OF st3, of build0 "()" close_line_A 7]
      close_line_A_1 close_line_A_2 close_line_A_3 g by auto
  from st0 st1 st2 st3 join_line_A_1 join_line_A_2 close_line_A_1 close_line_A_2 close_line_A_3
    q a b c d e
  show ?thesis by (simp only: simp_thms)
qed

text \<open>
  Stated with no notification for a duplicate event, the property fails: the code has
  no such check; the registration line of A given a second time changes neither the sets nor
  the counters, and returns the join embed again.
\<close>

theorem duplicate_join_counterexample:
  "tracked (after [Parse join_line_A ''7_main'' 7, Parse join_line_A ''7_main'' 7]) ''7_main''
     = tracked (after [Parse join_line_A ''7_main'' 7]) ''7_main''
   \<and> event_of (parse_lifecycle_event build0 () join_line_A ''7_main'' 7
                 (after [Parse join_line_A ''7_main'' 7])) = Some ''j2''
   \<and> returned (parse_lifecycle_event build0 () join_line_A ''7_main'' 7
                 (after [Parse join_line_A ''7_main'' 7]))
       = Some \<lparr>embed = ''player_join'', file_attachment = ''A''\<rparr>"
  by (simp add: eval_simps line_facts event_of_def returned_def tracked_def
      create_join_embed_def build0_def name_or_def)


end
